theory Spec2Isabelle
  imports
    Main
    "HOL-Library.AList"
    "HOL-Library.Sublist"
    "HOL-Library.Option_ord"
    "HOL-Library.Product_Lexorder"
    "HOL-Library.Multiset"
begin

section \<open>The data-access layer of VroomMart (server/storage.ts)\<close>

text \<open>
  The class \<open>DatabaseStorage\<close> runs every operation as a short sequence of SQL statements
  against the tables declared in \<open>shared/schema.ts\<close>. The embedding keeps the stored state
  explicit: a table is the list of its rows in the order a sequential scan meets them,
  a nullable column is an \<open>option\<close>, and every operation takes the state and returns
  the new one. What the storage engine generates (a row id, the time of \<open>defaultNow()\<close>
  and \<open>new Date()\<close>) is an argument of the operation. A statement that the engine
  rejects (primary key, foreign key, a number outside the range of its column) is a
  \<open>storage_error\<close>, and it writes nothing. No operation runs in a transaction: what the
  statements before the rejected one wrote stays, so an operation of several writing
  statements returns its result or error together with the state it leaves.
  Time is a number (an instant).
\<close>

subsection \<open>Rows (shared/schema.ts)\<close>

type_synonym ident = string
type_synonym timestamp = int

record User =
  u_id :: ident
  u_email :: "string option"
  u_firstName :: "string option"
  u_lastName :: "string option"
  u_profileImageUrl :: "string option"
  u_username :: "string option"
  u_bio :: "string option"
  u_location :: "string option"
  u_website :: "string option"
  u_followersCount :: "int option"
  u_followingCount :: "int option"
  u_createdAt :: "timestamp option"
  u_updatedAt :: "timestamp option"

record Product =
  p_id :: ident
  p_userId :: ident
  p_title :: string
  p_description :: string
  p_price :: string
  p_imageUrl :: "string option"
  p_imageUrls :: "string list option"
  p_hashtags :: "string list option"
  p_category :: "string option"
  p_stock :: "int option"
  p_isAvailable :: "bool option"
  p_likesCount :: "int option"
  p_sharesCount :: "int option"
  p_commentsCount :: "int option"
  p_viewsCount :: "int option"
  p_createdAt :: "timestamp option"
  p_updatedAt :: "timestamp option"

record Follow =
  f_id :: ident
  f_followerId :: ident
  f_followingId :: ident
  f_createdAt :: "timestamp option"

record ProductLike =
  pl_id :: ident
  pl_userId :: ident
  pl_productId :: ident
  pl_createdAt :: "timestamp option"

record ProductBookmark =
  pb_id :: ident
  pb_userId :: ident
  pb_productId :: ident
  pb_createdAt :: "timestamp option"

record CartItem =
  ci_id :: ident
  ci_userId :: ident
  ci_productId :: ident
  ci_quantity :: "int option"
  ci_createdAt :: "timestamp option"
  ci_updatedAt :: "timestamp option"

record Order =
  o_id :: ident
  o_buyerId :: ident
  o_sellerId :: ident
  o_productId :: ident
  o_quantity :: "int option"
  o_totalAmount :: string
  o_status :: "string option"
  o_paymentMethod :: "string option"
  o_shippingAddress :: "string option"
  o_createdAt :: "timestamp option"
  o_updatedAt :: "timestamp option"

text \<open>
  The stored state: the tables that the operations below read or write. (The tables
  \<open>vrooms\<close>, \<open>vroom_follows\<close>, \<open>comments\<close>, \<open>messages\<close> and \<open>sessions\<close> are touched by
  none of them.)
\<close>

record db =
  users :: "User list"
  products :: "Product list"
  follows :: "Follow list"
  productLikes :: "ProductLike list"
  productBookmarks :: "ProductBookmark list"
  cartItems :: "CartItem list"
  orders :: "Order list"

datatype storage_error =
    UniqueViolation
  | ForeignKeyViolation
  | NumericValueOutOfRange
  | SyntaxError
  | UndefinedFunction
  | InvalidTextRepresentation

text \<open>
  The values of an \<open>integer\<close> column (32 bits, signed). The engine rejects a statement
  that would store another number (\<open>NumericValueOutOfRange\<close>, SQLSTATE 22003).
\<close>

definition int4 :: "int \<Rightarrow> bool" where
  "int4 v = (- 2147483648 \<le> v \<and> v \<le> 2147483647)"

text \<open>A nullable \<open>integer\<close> column also takes \<open>NULL\<close>.\<close>

definition int4_column :: "int option \<Rightarrow> bool" where
  "int4_column v = (case v of None \<Rightarrow> True | Some n \<Rightarrow> int4 n)"

text \<open>
  A value of an optional, nullable property of a JavaScript object, as in
  \<open>InsertCartItem.quantity\<close>: absent, \<open>null\<close>, or a number.
\<close>

datatype 'a js_opt = Undefined | Null | Value 'a

record InsertCartItem =
  ici_userId :: ident
  ici_productId :: ident
  ici_quantity :: "int js_opt"


subsection \<open>Users and follows\<close>

definition has_id :: "('a \<Rightarrow> ident) \<Rightarrow> 'a list \<Rightarrow> ident \<Rightarrow> bool" where
  "has_id key rows i = (i \<in> set (map key rows))"

text \<open>
  \<open>select count(*) from follows where following_id = userId\<close> and the same for
  \<open>follower_id\<close>: the two count queries of \<open>updateUserStats\<close>.
\<close>

definition count_followers :: "db \<Rightarrow> ident \<Rightarrow> int" where
  "count_followers d userId = int (length (filter (\<lambda>f. f_followingId f = userId) (follows d)))"

definition count_following :: "db \<Rightarrow> ident \<Rightarrow> int" where
  "count_following d userId = int (length (filter (\<lambda>f. f_followerId f = userId) (follows d)))"

definition updateUserStats :: "timestamp \<Rightarrow> ident \<Rightarrow> db \<Rightarrow> db" where
  "updateUserStats now userId d =
     (let followersCount = count_followers d userId;
          followingCount = count_following d userId
      in d\<lparr>users := map (\<lambda>u. if u_id u = userId
                then u\<lparr>u_followersCount := Some followersCount,
                       u_followingCount := Some followingCount,
                       u_updatedAt := Some now\<rparr>
                else u) (users d)\<rparr>)"

text \<open>
  \<open>insert into follows\<close>: the primary key \<open>id\<close> must be new, and \<open>follower_id\<close> and
  \<open>following_id\<close> reference \<open>users.id\<close>. No uniqueness of the pair is declared.
\<close>

definition insert_follow :: "Follow \<Rightarrow> db \<Rightarrow> storage_error + db" where
  "insert_follow r d =
     (if has_id f_id (follows d) (f_id r) then Inl UniqueViolation
      else if \<not> has_id u_id (users d) (f_followerId r) \<or> \<not> has_id u_id (users d) (f_followingId r)
        then Inl ForeignKeyViolation
      else Inr (d\<lparr>follows := follows d @ [r]\<rparr>))"

text \<open>
  \<open>followUser\<close>: \<open>newId\<close> is the generated id and \<open>t0\<close> the time of \<open>defaultNow()\<close>;
  \<open>t1\<close> and \<open>t2\<close> are the times of the two \<open>updateUserStats\<close> calls.
\<close>

definition followUser ::
  "ident \<Rightarrow> timestamp \<Rightarrow> timestamp \<Rightarrow> timestamp \<Rightarrow> ident \<Rightarrow> ident \<Rightarrow> db \<Rightarrow> storage_error + Follow \<times> db" where
  "followUser newId t0 t1 t2 followerId followingId d =
     (let follow = \<lparr>f_id = newId, f_followerId = followerId, f_followingId = followingId,
                    f_createdAt = Some t0\<rparr>
      in case insert_follow follow d of
           Inl e \<Rightarrow> Inl e
         | Inr d1 \<Rightarrow> Inr (follow, updateUserStats t2 followingId (updateUserStats t1 followerId d1)))"

definition unfollowUser :: "timestamp \<Rightarrow> timestamp \<Rightarrow> ident \<Rightarrow> ident \<Rightarrow> db \<Rightarrow> db" where
  "unfollowUser t1 t2 followerId followingId d =
     (let d1 = d\<lparr>follows := filter (\<lambda>f. \<not> (f_followerId f = followerId \<and> f_followingId f = followingId))
                                (follows d)\<rparr>
      in updateUserStats t2 followingId (updateUserStats t1 followerId d1))"

definition isFollowingUser :: "ident \<Rightarrow> ident \<Rightarrow> db \<Rightarrow> bool" where
  "isFollowingUser followerId followingId d =
     (let result = filter (\<lambda>f. f_followerId f = followerId \<and> f_followingId f = followingId) (follows d)
      in length result > 0)"

text \<open>
  The stored counters of every user row with id \<open>x\<close> agree with the live counts.
\<close>

definition stats_live :: "db \<Rightarrow> ident \<Rightarrow> bool" where
  "stats_live d x =
     (\<forall>u \<in> set (users d). u_id u = x \<longrightarrow>
        u_followersCount u = Some (count_followers d x) \<and>
        u_followingCount u = Some (count_following d x))"

subsection \<open>Products and likes\<close>

definition getProduct :: "ident \<Rightarrow> db \<Rightarrow> Product option" where
  "getProduct i d = (case filter (\<lambda>p. p_id p = i) (products d) of
                       [] \<Rightarrow> None
                     | product # _ \<Rightarrow> Some product)"

text \<open>
  \<open>insert into product_likes\<close>: a new primary key; \<open>user_id\<close> references \<open>users.id\<close> and
  \<open>product_id\<close> references \<open>products.id\<close>. No uniqueness of the pair is declared.
\<close>

definition insert_productLike :: "ProductLike \<Rightarrow> db \<Rightarrow> storage_error + db" where
  "insert_productLike r d =
     (if has_id pl_id (productLikes d) (pl_id r) then Inl UniqueViolation
      else if \<not> has_id u_id (users d) (pl_userId r) \<or> \<not> has_id p_id (products d) (pl_productId r)
        then Inl ForeignKeyViolation
      else Inr (d\<lparr>productLikes := productLikes d @ [r]\<rparr>))"

text \<open>
  \<open>update products set likes_count = likes_count + 1 where id = ...\<close> and the same with
  \<open>- 1\<close>: the engine computes the new counter of every row with that id; on a \<open>NULL\<close>
  counter the result is \<open>NULL\<close>. When a result is outside the column's range the
  statement is rejected and no row changes.
\<close>

definition update_likesCount :: "(int \<Rightarrow> int) \<Rightarrow> ident \<Rightarrow> db \<Rightarrow> storage_error + db" where
  "update_likesCount f productId d =
     (if \<exists>p \<in> set (products d). p_id p = productId \<and>
           (case p_likesCount p of None \<Rightarrow> False | Some c \<Rightarrow> \<not> int4 (f c))
      then Inl NumericValueOutOfRange
      else Inr (d\<lparr>products := map (\<lambda>p. if p_id p = productId
                       then p\<lparr>p_likesCount := map_option f (p_likesCount p)\<rparr>
                       else p) (products d)\<rparr>))"

text \<open>
  \<open>likeProduct\<close> and \<open>unlikeProduct\<close> run two statements each. The result is the value
  returned or the error raised, with the state left behind: when the counter update is
  rejected, the inserted like row (the deletion of the like rows) stays.
\<close>

definition likeProduct ::
  "ident \<Rightarrow> timestamp \<Rightarrow> ident \<Rightarrow> ident \<Rightarrow> db \<Rightarrow> (storage_error + ProductLike) \<times> db" where
  "likeProduct newId t0 userId productId d =
     (let like = \<lparr>pl_id = newId, pl_userId = userId, pl_productId = productId,
                  pl_createdAt = Some t0\<rparr>
      in case insert_productLike like d of
           Inl e \<Rightarrow> (Inl e, d)
         | Inr d1 \<Rightarrow>
             (case update_likesCount (\<lambda>c. c + 1) productId d1 of
                Inl e \<Rightarrow> (Inl e, d1)
              | Inr d2 \<Rightarrow> (Inr like, d2)))"

definition unlikeProduct :: "ident \<Rightarrow> ident \<Rightarrow> db \<Rightarrow> (storage_error + unit) \<times> db" where
  "unlikeProduct userId productId d =
     (let d1 = d\<lparr>productLikes := filter (\<lambda>l. \<not> (pl_userId l = userId \<and> pl_productId l = productId))
                                     (productLikes d)\<rparr>
      in case update_likesCount (\<lambda>c. c - 1) productId d1 of
           Inl e \<Rightarrow> (Inl e, d1)
         | Inr d2 \<Rightarrow> (Inr (), d2))"

definition isProductLiked :: "ident \<Rightarrow> ident \<Rightarrow> db \<Rightarrow> bool" where
  "isProductLiked userId productId d =
     (let result = filter (\<lambda>l. pl_userId l = userId \<and> pl_productId l = productId) (productLikes d)
      in length result > 0)"

text \<open>The number of like edges of a product: what \<open>likesCount\<close> is meant to equal.\<close>

definition count_likes :: "db \<Rightarrow> ident \<Rightarrow> int" where
  "count_likes d productId = int (length (filter (\<lambda>l. pl_productId l = productId) (productLikes d)))"

subsection \<open>Orders\<close>



subsection \<open>Cart\<close>

text \<open>
  \<open>cartItem.quantity || 1\<close>: JavaScript takes the right operand when the left one is
  \<open>undefined\<close>, \<open>null\<close> or \<open>0\<close>.
\<close>

definition js_or_1 :: "int js_opt \<Rightarrow> int" where
  "js_or_1 q = (case q of Undefined \<Rightarrow> 1 | Null \<Rightarrow> 1 | Value n \<Rightarrow> (if n = 0 then 1 else n))"

text \<open>\<open>existingItem.quantity + n\<close>: a \<open>null\<close> left operand counts as \<open>0\<close>.\<close>

definition js_plus :: "int option \<Rightarrow> int \<Rightarrow> int" where
  "js_plus a n = (case a of None \<Rightarrow> 0 + n | Some m \<Rightarrow> m + n)"

text \<open>
  The value an \<open>insert\<close> stores in a nullable column with a default: the default when
  the property is absent, \<open>NULL\<close> when it is \<open>null\<close>.
\<close>

definition column_value :: "'a \<Rightarrow> 'a js_opt \<Rightarrow> 'a option" where
  "column_value dflt v = (case v of Undefined \<Rightarrow> Some dflt | Null \<Rightarrow> None | Value x \<Rightarrow> Some x)"

text \<open>
  \<open>insert into cart_items\<close>: the quantity must be a value of its \<open>integer\<close> column; a
  new primary key; \<open>user_id\<close> references \<open>users.id\<close> and \<open>product_id\<close> references
  \<open>products.id\<close>. No uniqueness of the pair is declared.
\<close>

definition insert_cartItem :: "CartItem \<Rightarrow> db \<Rightarrow> storage_error + db" where
  "insert_cartItem r d =
     (if \<not> int4_column (ci_quantity r) then Inl NumericValueOutOfRange
      else if has_id ci_id (cartItems d) (ci_id r) then Inl UniqueViolation
      else if \<not> has_id u_id (users d) (ci_userId r) \<or> \<not> has_id p_id (products d) (ci_productId r)
        then Inl ForeignKeyViolation
      else Inr (d\<lparr>cartItems := cartItems d @ [r]\<rparr>))"

text \<open>
  \<open>addToCart\<close>: \<open>newId\<close> and \<open>t0\<close> are the generated id and the time of \<open>defaultNow()\<close>
  of the insert, \<open>t1\<close> the time of \<open>new Date()\<close> of the update. The sum is computed in
  JavaScript and handed to the update, which the engine rejects when the sum is no value
  of the \<open>integer\<close> column. The result is the first row that \<open>returning()\<close> gives. Each
  path writes with one statement, so a rejected call leaves the state as it was.
\<close>

definition addToCart ::
  "ident \<Rightarrow> timestamp \<Rightarrow> timestamp \<Rightarrow> InsertCartItem \<Rightarrow> db \<Rightarrow> storage_error + CartItem option \<times> db" where
  "addToCart newId t0 t1 cartItem d =
     (case filter (\<lambda>c. ci_userId c = ici_userId cartItem \<and> ci_productId c = ici_productId cartItem)
             (cartItems d) of
        existingItem # _ \<Rightarrow>
          (let quantity = js_plus (ci_quantity existingItem) (js_or_1 (ici_quantity cartItem));
               upd = (\<lambda>c. c\<lparr>ci_quantity := Some quantity, ci_updatedAt := Some t1\<rparr>);
               returning = map upd (filter (\<lambda>c. ci_id c = ci_id existingItem) (cartItems d));
               d' = d\<lparr>cartItems := map (\<lambda>c. if ci_id c = ci_id existingItem then upd c else c)
                                      (cartItems d)\<rparr>
           in if \<not> int4 quantity then Inl NumericValueOutOfRange
              else Inr (case returning of [] \<Rightarrow> None | updatedItem # _ \<Rightarrow> Some updatedItem, d'))
      | [] \<Rightarrow>
          (let newItem = \<lparr>ci_id = newId, ci_userId = ici_userId cartItem,
                          ci_productId = ici_productId cartItem,
                          ci_quantity = column_value 1 (ici_quantity cartItem),
                          ci_createdAt = Some t0, ci_updatedAt = Some t0\<rparr>
           in case insert_cartItem newItem d of
                Inl e \<Rightarrow> Inl e
              | Inr d' \<Rightarrow> Inr (Some newItem, d')))"

text \<open>The cart rows of a user for a product.\<close>

definition cart_rows :: "ident \<Rightarrow> ident \<Rightarrow> db \<Rightarrow> CartItem list" where
  "cart_rows u p d = filter (\<lambda>c. ci_userId c = u \<and> ci_productId c = p) (cartItems d)"

text \<open>
  The state of the cart table that \<open>addToCart\<close> maintains: ids are a primary key, and no
  two rows are of the same user and product.
\<close>

definition cart_ok :: "db \<Rightarrow> bool" where
  "cart_ok d = (distinct (map ci_id (cartItems d)) \<and>
                distinct (map (\<lambda>c. (ci_userId c, ci_productId c)) (cartItems d)))"

subsection \<open>Product queries\<close>

text \<open>\<open>eq(products.isAvailable, true)\<close>: a \<open>NULL\<close> flag does not satisfy it.\<close>

definition available :: "Product \<Rightarrow> bool" where
  "available p = (p_isAvailable p = Some True)"

text \<open>
  \<open>order by c desc\<close>: the engine puts \<open>NULL\<close> first and then larger values before smaller
  ones. With \<open>None\<close> least among options, that is the ascending order of \<open>desc c\<close>.
  The order of rows with equal keys is not fixed by the query; the model keeps them in
  the scan order of the table (\<open>sort_key\<close> is stable).
\<close>

definition desc :: "int option \<Rightarrow> int option" where
  "desc v = map_option uminus v"

text \<open>
  The default value of a parameter \<open>limit = 10\<close>: \<open>None\<close> is a call without the argument.
  The limit is a JavaScript number, here an integer of either sign (the routes pass
  \<open>parseInt(req.query.limit) || 10\<close>).
\<close>

definition default_limit :: "int option \<Rightarrow> int" where
  "default_limit limit = (case limit of None \<Rightarrow> 10 | Some n \<Rightarrow> n)"

text \<open>
  \<open>.limit(n)\<close>: the query builder writes \<open>LIMIT n\<close> into the statement for \<open>n \<ge> 0\<close> and
  leaves the clause out for a negative \<open>n\<close>, so that every row is returned.
\<close>

definition limit_rows :: "int \<Rightarrow> 'a list \<Rightarrow> 'a list" where
  "limit_rows n rows = (if n < 0 then rows else take (nat n) rows)"

definition getTrendingProducts :: "int option \<Rightarrow> db \<Rightarrow> Product list" where
  "getTrendingProducts limit d =
     limit_rows (default_limit limit)
       (sort_key (\<lambda>p. (desc (p_likesCount p), desc (p_viewsCount p)))
          (filter available (products d)))"

text \<open>
  What \<open>order by likes_count desc, views_count desc\<close> allows: \<open>p\<close> may stand before \<open>q\<close>.
\<close>

definition desc_le :: "int option \<Rightarrow> int option \<Rightarrow> bool" where
  "desc_le a b = (case a of None \<Rightarrow> True | Some x \<Rightarrow> (case b of None \<Rightarrow> False | Some y \<Rightarrow> y \<le> x))"

definition trending_before :: "Product \<Rightarrow> Product \<Rightarrow> bool" where
  "trending_before p q =
     (desc_le (p_likesCount p) (p_likesCount q) \<and>
      (p_likesCount p = p_likesCount q \<longrightarrow> desc_le (p_viewsCount p) (p_viewsCount q)))"

text \<open>
  \<open>a && b\<close> on text arrays: the arrays have an element in common; \<open>NULL\<close> when the column
  is \<open>NULL\<close>, which a \<open>where\<close> clause does not accept.
\<close>

definition arrays_overlap :: "string list option \<Rightarrow> string list \<Rightarrow> bool" where
  "arrays_overlap a b = (case a of None \<Rightarrow> False | Some xs \<Rightarrow> (\<exists>x \<in> set xs. x \<in> set b))"

text \<open>
  The right operand of \<open>sql`${products.hashtags} && ${hashtags}`\<close>. The query builder writes
  a JavaScript array into a statement as the parenthesised list of its elements,
  \<open>($1, ..., $n)\<close>, not as one array. With two or more elements that is a row, and the
  engine has no operator \<open>&&\<close> between a text array and a row: it rejects the statement.
  With one element it is that one parameter, which the engine reads as the text of an
  array: it rejects the statement when the text is not an array literal (as
  \<open>vintage\<close>, which lacks the braces). With no element it is \<open>()\<close>, which is no
  expression. The engine's reading of a text as an array is not among the sources; it is
  the argument \<open>array_in\<close>, \<open>None\<close> for a text that is no array literal.
\<close>

definition overlap_operand ::
  "(string \<Rightarrow> string list option) \<Rightarrow> string list \<Rightarrow> storage_error + string list" where
  "overlap_operand array_in hashtags =
     (case hashtags of
        [] \<Rightarrow> Inl SyntaxError
      | [h] \<Rightarrow> (case array_in h of None \<Rightarrow> Inl InvalidTextRepresentation | Some a \<Rightarrow> Inr a)
      | _ # _ # _ \<Rightarrow> Inl UndefinedFunction)"

text \<open>A JavaScript \<open>Set\<close> of strings in insertion order, and its \<open>add\<close>.\<close>

definition set_add :: "string \<Rightarrow> string list \<Rightarrow> string list" where
  "set_add tag s = (if tag \<in> set s then s else s @ [tag])"

definition getRecommendedProducts ::
  "(string \<Rightarrow> string list option) \<Rightarrow> ident \<Rightarrow> int option \<Rightarrow> db \<Rightarrow> storage_error + Product list" where
  "getRecommendedProducts array_in userId limit d =
     (let lim = default_limit limit;
          userInteractions = map pl_productId (filter (\<lambda>l. pl_userId l = userId) (productLikes d));
          bookmarks = map pb_productId (filter (\<lambda>b. pb_userId b = userId) (productBookmarks d));
          interactedProductIds = userInteractions @ bookmarks
      in if length interactedProductIds = 0 then Inr (getTrendingProducts (Some lim) d)
         else
           let interactedProducts =
                 map p_hashtags (filter (\<lambda>p. p_id p \<in> set interactedProductIds) (products d));
               userHashtags =
                 fold (\<lambda>hashtags s. case hashtags of None \<Rightarrow> s | Some tags \<Rightarrow> fold set_add tags s)
                   interactedProducts []
           in if length userHashtags = 0 then Inr (getTrendingProducts (Some lim) d)
              else case overlap_operand array_in userHashtags of
                     Inl e \<Rightarrow> Inl e
                   | Inr a \<Rightarrow>
                       Inr (limit_rows lim
                              (sort_key (\<lambda>p. desc (p_likesCount p))
                                 (filter (\<lambda>p. available p \<and> arrays_overlap (p_hashtags p) a)
                                    (products d)))))"

subsection \<open>Search\<close>

text \<open>
  \<open>ilike(column, pattern)\<close>. In a pattern \<open>%\<close> stands for any sequence of characters,
  \<open>_\<close> for any one character, and a backslash makes the next character stand for itself
  (a pattern that ends in a single backslash is rejected by the engine; the patterns below
  end in \<open>%\<close>). \<open>ILIKE\<close> compares without regard to case: here, of the ASCII letters.
\<close>

definition to_lower :: "char \<Rightarrow> char" where
  "to_lower c = (let n = (of_char c :: nat) in if 65 \<le> n \<and> n \<le> 90 then char_of (n + 32) else c)"

fun like_match :: "string \<Rightarrow> string \<Rightarrow> bool" where
  "like_match [] s = (s = [])"
| "like_match (c # p) [] = (c = CHR ''%'' \<and> like_match p [])"
| "like_match (c # p) (x # s) =
     (if c = CHR ''%'' then like_match p (x # s) \<or> like_match (c # p) s
      else if c = CHR ''_'' then like_match p s
      else if c = CHR 0x5C then (case p of [] \<Rightarrow> False | e # p' \<Rightarrow> x = e \<and> like_match p' s)
      else x = c \<and> like_match p s)"

definition ilike :: "string \<Rightarrow> string \<Rightarrow> bool" where
  "ilike s pattern = like_match (map to_lower pattern) (map to_lower s)"

definition searchProducts ::
  "(string \<Rightarrow> string list option) \<Rightarrow> string \<Rightarrow> string list option \<Rightarrow> db \<Rightarrow> storage_error + Product list" where
  "searchProducts array_in query hashtags d =
     (let conditions = (\<lambda>p. available p \<and>
                             (ilike (p_title p) (''%'' @ query @ ''%'') \<or>
                              ilike (p_description p) (''%'' @ query @ ''%'')));
          rows = (\<lambda>c. sort_key (\<lambda>p. desc (p_createdAt p)) (filter c (products d)))
      in case hashtags of
           None \<Rightarrow> Inr (rows conditions)
         | Some hs \<Rightarrow>
             if length hs > 0
             then (case overlap_operand array_in hs of
                     Inl e \<Rightarrow> Inl e
                   | Inr a \<Rightarrow> Inr (rows (\<lambda>p. conditions p \<and> arrays_overlap (p_hashtags p) a)))
             else Inr (rows conditions))"

text \<open>
  The claim's words: \<open>s\<close> contains \<open>q\<close> without regard to case, and the hashtag sets
  intersect.
\<close>

definition contains_ci :: "string \<Rightarrow> string \<Rightarrow> bool" where
  "contains_ci s q = sublist (map to_lower q) (map to_lower s)"

definition search_spec :: "string \<Rightarrow> string list option \<Rightarrow> Product \<Rightarrow> bool" where
  "search_spec q hs p =
     (available p \<and>
      (contains_ci (p_title p) q \<or> contains_ci (p_description p) q) \<and>
      (case hs of
         None \<Rightarrow> True
       | Some l \<Rightarrow> l = [] \<or>
                  (case p_hashtags p of None \<Rightarrow> False | Some tags \<Rightarrow> set tags \<inter> set l \<noteq> {})))"

subsection \<open>Trending hashtags\<close>

text \<open>
  \<open>hashtagCount\<close> is a JavaScript \<open>Map\<close>: its entries in insertion order, \<open>set\<close> keeping the
  place of a key it already holds. \<open>hashtagCount.get(hashtag) || 0\<close> is \<open>0\<close> for a key
  not held (or held with \<open>0\<close>).
\<close>

definition count_hashtag :: "string \<Rightarrow> (string \<times> int) list \<Rightarrow> (string \<times> int) list" where
  "count_hashtag hashtag m =
     (let count = (case map_of m hashtag of None \<Rightarrow> 0 | Some c \<Rightarrow> if c = 0 then 0 else c)
      in AList.update hashtag (count + 1) m)"

definition hashtagCount :: "db \<Rightarrow> (string \<times> int) list" where
  "hashtagCount d =
     (let productsWithHashtags = map p_hashtags (filter available (products d))
      in fold (\<lambda>hashtags m. case hashtags of None \<Rightarrow> m | Some tags \<Rightarrow> fold count_hashtag tags m)
           productsWithHashtags [])"

text \<open>\<open>xs.slice(0, n)\<close> for an integer \<open>n\<close>: a negative \<open>n\<close> counts from the end.\<close>

definition js_slice0 :: "int \<Rightarrow> 'a list \<Rightarrow> 'a list" where
  "js_slice0 n xs = (if n < 0 then take (nat (int (length xs) + n)) xs else take (nat n) xs)"

text \<open>
  \<open>getTrendingHashtags\<close>: an entry \<open>{hashtag, count}\<close> is a pair. \<open>sort\<close> with the
  comparator \<open>b.count - a.count\<close> is stable and puts larger counts first.
\<close>

definition getTrendingHashtags :: "int option \<Rightarrow> db \<Rightarrow> (string \<times> int) list" where
  "getTrendingHashtags limit d =
     js_slice0 (case limit of None \<Rightarrow> 10 | Some n \<Rightarrow> n)
       (sort_key (\<lambda>(hashtag, count). - count) (hashtagCount d))"

text \<open>All hashtag occurrences in the lists of the available products.\<close>

definition available_hashtags :: "db \<Rightarrow> string list" where
  "available_hashtags d =
     concat (map (\<lambda>p. case p_hashtags p of None \<Rightarrow> [] | Some tags \<Rightarrow> tags)
               (filter available (products d)))"

text \<open>The count a map holds for a hashtag (\<open>0\<close> when it holds none).\<close>

definition held :: "(string \<times> int) list \<Rightarrow> string \<Rightarrow> int" where
  "held m h = (case map_of m h of None \<Rightarrow> 0 | Some c \<Rightarrow> c)"

text \<open>The entries of \<open>getTrendingHashtags\<close> after \<open>sort\<close> and before \<open>slice\<close>.\<close>

definition sorted_entries :: "db \<Rightarrow> (string \<times> int) list" where
  "sorted_entries d = sort_key (\<lambda>(hashtag, count). - count) (hashtagCount d)"

subsection \<open>Example rows\<close>

text \<open>Rows as their \<open>insert\<close> leaves them when only the required columns are given.\<close>

definition user_row :: "ident \<Rightarrow> User" where
  "user_row i = \<lparr>u_id = i, u_email = None, u_firstName = None, u_lastName = None,
     u_profileImageUrl = None, u_username = None, u_bio = None, u_location = None,
     u_website = None, u_followersCount = Some 0, u_followingCount = Some 0,
     u_createdAt = Some 0, u_updatedAt = Some 0\<rparr>"

definition empty_db :: db where
  "empty_db = \<lparr>users = [], products = [], follows = [], productLikes = [],
     productBookmarks = [], cartItems = [], orders = []\<rparr>"

definition two_users :: db where
  "two_users = empty_db\<lparr>users := [user_row ''alice'', user_row ''bob'']\<rparr>"

text \<open>Two users whose stored counters do not agree with the (empty) follows table.\<close>

definition drifted_users :: db where
  "drifted_users = empty_db\<lparr>users :=
     [(user_row ''alice'')\<lparr>u_followersCount := Some 7, u_followingCount := None\<rparr>,
      (user_row ''bob'')\<lparr>u_followersCount := Some 5\<rparr>]\<rparr>"

definition product_row :: "ident \<Rightarrow> ident \<Rightarrow> string \<Rightarrow> string \<Rightarrow> Product" where
  "product_row i owner title description =
     \<lparr>p_id = i, p_userId = owner, p_title = title, p_description = description,
      p_price = ''1.00'', p_imageUrl = None, p_imageUrls = None, p_hashtags = None,
      p_category = None, p_stock = Some 1, p_isAvailable = Some True, p_likesCount = Some 0,
      p_sharesCount = Some 0, p_commentsCount = Some 0, p_viewsCount = Some 0,
      p_createdAt = Some 0, p_updatedAt = Some 0\<rparr>"


definition shop :: db where
  "shop = two_users\<lparr>products := [product_row ''p1'' ''bob'' ''Shoe'' ''a red shoe'']\<rparr>"

text \<open>The shop with the like counter of its product at the ends of the column's range.\<close>

definition full_counter_shop :: db where
  "full_counter_shop = two_users\<lparr>products :=
     [(product_row ''p1'' ''bob'' ''Shoe'' ''a red shoe'')\<lparr>p_likesCount := Some 2147483647\<rparr>]\<rparr>"

definition lowest_counter_shop :: db where
  "lowest_counter_shop = two_users\<lparr>products :=
     [(product_row ''p1'' ''bob'' ''Shoe'' ''a red shoe'')\<lparr>p_likesCount := Some (- 2147483648)\<rparr>]\<rparr>"

definition cart_row :: "ident \<Rightarrow> ident \<Rightarrow> ident \<Rightarrow> int \<Rightarrow> CartItem" where
  "cart_row i u p q = \<lparr>ci_id = i, ci_userId = u, ci_productId = p, ci_quantity = Some q,
     ci_createdAt = Some 0, ci_updatedAt = Some 0\<rparr>"

definition cart1 :: db where
  "cart1 = shop\<lparr>cartItems := [cart_row ''c1'' ''alice'' ''p1'' 2]\<rparr>"

definition full_cart :: db where
  "full_cart = shop\<lparr>cartItems := [cart_row ''c1'' ''alice'' ''p1'' 2147483647]\<rparr>"

definition trending_shop :: db where
  "trending_shop = two_users\<lparr>products :=
     [(product_row ''p1'' ''bob'' ''Shoe'' ''a red shoe'')\<lparr>p_likesCount := Some 1\<rparr>,
      (product_row ''p2'' ''bob'' ''Boot'' ''a boot'')\<lparr>p_likesCount := Some 3\<rparr>,
      (product_row ''p3'' ''bob'' ''Hat'' ''a hat'')\<lparr>p_isAvailable := Some False, p_likesCount := Some 9\<rparr>,
      (product_row ''p4'' ''bob'' ''Sock'' ''a sock'')\<lparr>p_likesCount := Some 3, p_viewsCount := Some 2\<rparr>]\<rparr>"

definition tags_shop :: db where
  "tags_shop = two_users\<lparr>products :=
     [(product_row ''p1'' ''bob'' ''Shoe'' ''a red shoe'')\<lparr>p_hashtags := Some [''a'', ''b'', ''a'']\<rparr>,
      (product_row ''p2'' ''bob'' ''Boot'' ''a boot'')\<lparr>p_hashtags := Some [''c'', ''b'', ''c'', ''c'']\<rparr>,
      (product_row ''p3'' ''bob'' ''Hat'' ''a hat'')\<lparr>p_isAvailable := Some False,
                                                   p_hashtags := Some [''d'']\<rparr>,
      (product_row ''p4'' ''bob'' ''Sock'' ''a sock'')]\<rparr>"

text \<open>The catalog of the specification's example: frequencies a 10, b 7, c 7, d 3.\<close>

definition frequency_example :: db where
  "frequency_example = two_users\<lparr>products :=
     [(product_row ''p1'' ''bob'' ''Shoe'' ''a red shoe'')
        \<lparr>p_hashtags := Some (replicate 10 ''a'' @ replicate 7 ''b'')\<rparr>,
      (product_row ''p2'' ''bob'' ''Boot'' ''a boot'')
        \<lparr>p_hashtags := Some (replicate 7 ''c'' @ replicate 3 ''d'')\<rparr>]\<rparr>"

section \<open>Properties\<close>

subsection \<open>Follows\<close>

lemma follows_updateUserStats [simp]: "follows (updateUserStats t x d) = follows d"
  by (simp add: updateUserStats_def Let_def)

lemma count_followers_updateUserStats [simp]:
  "count_followers (updateUserStats t x d) y = count_followers d y"
  by (simp add: count_followers_def)

lemma count_following_updateUserStats [simp]:
  "count_following (updateUserStats t x d) y = count_following d y"
  by (simp add: count_following_def)

lemma updated_user_row:
  "u \<in> set (map (\<lambda>v. if u_id v = x
            then v\<lparr>u_followersCount := Some m, u_followingCount := Some n, u_updatedAt := Some t\<rparr>
            else v) us) \<Longrightarrow>
   (u_id u = x \<longrightarrow> u_followersCount u = Some m \<and> u_followingCount u = Some n) \<and>
   (u_id u \<noteq> x \<longrightarrow> u \<in> set us)"
  by (induction us) (auto split: if_splits)

lemma users_updateUserStats:
  "users (updateUserStats t x d) =
     map (\<lambda>v. if u_id v = x
            then v\<lparr>u_followersCount := Some (count_followers d x),
                   u_followingCount := Some (count_following d x), u_updatedAt := Some t\<rparr>
            else v) (users d)"
  by (simp add: updateUserStats_def Let_def)

lemma stats_live_updateUserStats_same: "stats_live (updateUserStats t x d) x"
  unfolding stats_live_def count_followers_updateUserStats count_following_updateUserStats
    users_updateUserStats
  by (blast dest: updated_user_row)

lemma stats_live_updateUserStats_other:
  "stats_live d y \<Longrightarrow> stats_live (updateUserStats t x d) y"
proof (cases "y = x")
  case True
  then show ?thesis by (simp add: stats_live_updateUserStats_same)
next
  case False
  assume live: "stats_live d y"
  show ?thesis
    unfolding stats_live_def count_followers_updateUserStats count_following_updateUserStats
      users_updateUserStats
  proof (intro ballI impI)
    fix u
    assume u: "u \<in> set (map (\<lambda>v. if u_id v = x
            then v\<lparr>u_followersCount := Some (count_followers d x),
                   u_followingCount := Some (count_following d x), u_updatedAt := Some t\<rparr>
            else v) (users d))" and y: "u_id u = y"
    from updated_user_row [OF u] y False have "u \<in> set (users d)"
      by blast
    with live y show "u_followersCount u = Some (count_followers d y) \<and>
        u_followingCount u = Some (count_following d y)"
      by (simp add: stats_live_def)
  qed
qed

lemma stats_live_after_both:
  "stats_live (updateUserStats t2 b (updateUserStats t1 a d)) a \<and>
   stats_live (updateUserStats t2 b (updateUserStats t1 a d)) b"
  by (simp add: stats_live_updateUserStats_same stats_live_updateUserStats_other)

lemma followUser_Inr:
  "followUser newId t0 t1 t2 a b d = Inr (f, d') \<Longrightarrow>
     \<not> has_id f_id (follows d) newId \<and> has_id u_id (users d) a \<and> has_id u_id (users d) b \<and>
     f = \<lparr>f_id = newId, f_followerId = a, f_followingId = b, f_createdAt = Some t0\<rparr> \<and>
     d' = updateUserStats t2 b (updateUserStats t1 a (d\<lparr>follows := follows d @ [f]\<rparr>))"
  by (auto simp: followUser_def insert_follow_def Let_def split: if_splits)

lemma followUser_returns:
  "\<not> has_id f_id (follows d) newId \<Longrightarrow> has_id u_id (users d) a \<Longrightarrow> has_id u_id (users d) b \<Longrightarrow>
     \<exists>f d'. followUser newId t0 t1 t2 a b d = Inr (f, d')"
  by (simp add: followUser_def insert_follow_def Let_def)


lemma isFollowingUser_iff:
  "isFollowingUser a b d \<longleftrightarrow> (\<exists>f \<in> set (follows d). f_followerId f = a \<and> f_followingId f = b)"
  by (auto simp: isFollowingUser_def Let_def filter_empty_conv)

text \<open>
  C8. \<open>isFollowingUser(a, b)\<close> is true in the state that \<open>followUser(a, b)\<close> leaves
  whenever it returns, and it returns when both users exist (the generated id being new);
  \<open>isFollowingUser(a, b)\<close> is false in the state that \<open>unfollowUser(a, b)\<close> leaves.
\<close>

theorem isFollowingUser_after_follow_and_unfollow:
  "(\<forall>f d'. followUser newId t0 t1 t2 a b d = Inr (f, d') \<longrightarrow> isFollowingUser a b d') \<and>
   (\<not> has_id f_id (follows d) newId \<and> has_id u_id (users d) a \<and> has_id u_id (users d) b \<longrightarrow>
      (\<exists>f d'. followUser newId t0 t1 t2 a b d = Inr (f, d'))) \<and>
   \<not> isFollowingUser a b (unfollowUser t3 t4 a b d)"
proof (intro conjI allI impI)
  fix f d'
  assume "followUser newId t0 t1 t2 a b d = Inr (f, d')"
  from followUser_Inr [OF this] show "isFollowingUser a b d'"
    by (simp add: isFollowingUser_iff)
next
  assume "\<not> has_id f_id (follows d) newId \<and> has_id u_id (users d) a \<and> has_id u_id (users d) b"
  then show "\<exists>f d'. followUser newId t0 t1 t2 a b d = Inr (f, d')"
    by (simp add: followUser_returns)
next
  show "\<not> isFollowingUser a b (unfollowUser t3 t4 a b d)"
    by (simp add: isFollowingUser_iff unfollowUser_def Let_def)
qed

lemma two_users_follow:
  "followUser ''f1'' 10 11 12 ''alice'' ''bob'' two_users =
     Inr (\<lparr>f_id = ''f1'', f_followerId = ''alice'', f_followingId = ''bob'', f_createdAt = Some 10\<rparr>,
          \<lparr>users = [user_row ''alice''\<lparr>u_followersCount := Some 0, u_followingCount := Some 1,
                                        u_updatedAt := Some 11\<rparr>,
                     user_row ''bob''\<lparr>u_followersCount := Some 1, u_followingCount := Some 0,
                                      u_updatedAt := Some 12\<rparr>],
           products = [],
           follows = [\<lparr>f_id = ''f1'', f_followerId = ''alice'', f_followingId = ''bob'',
                       f_createdAt = Some 10\<rparr>],
           productLikes = [], productBookmarks = [], cartItems = [], orders = []\<rparr>)"
  by (simp add: followUser_def insert_follow_def has_id_def two_users_def empty_db_def
      user_row_def updateUserStats_def count_followers_def count_following_def Let_def)

theorem isFollowingUser_after_follow_and_unfollow_witness:
  "(\<exists>f d'. followUser ''f1'' 10 11 12 ''alice'' ''bob'' two_users = Inr (f, d') \<and>
      isFollowingUser ''alice'' ''bob'' d' \<and>
      \<not> isFollowingUser ''alice'' ''bob'' (unfollowUser 13 14 ''alice'' ''bob'' d'))"
proof -
  obtain f d' where r: "followUser ''f1'' 10 11 12 ''alice'' ''bob'' two_users = Inr (f, d')"
    using two_users_follow by blast
  have "isFollowingUser ''alice'' ''bob'' d'"
    using isFollowingUser_after_follow_and_unfollow
      [of "''f1''" 10 11 12 "''alice''" "''bob''" two_users] r by blast
  moreover have "\<not> isFollowingUser ''alice'' ''bob'' (unfollowUser 13 14 ''alice'' ''bob'' d')"
    using isFollowingUser_after_follow_and_unfollow [of _ _ _ _ "''alice''" "''bob''" d' 13 14]
    by blast
  ultimately show ?thesis using r by blast
qed

text \<open>
  C2. In the state that \<open>followUser(a, b)\<close> leaves when it returns, and in the state that
  \<open>unfollowUser(a, b)\<close> leaves, every user row of \<open>a\<close> and of \<open>b\<close> stores as
  \<open>followersCount\<close> the number of follow rows whose \<open>followingId\<close> is that user and as
  \<open>followingCount\<close> the number of follow rows whose \<open>followerId\<close> is that user, whatever
  the counters held before.
\<close>

theorem follow_counters_are_live_counts:
  "(\<forall>f d'. followUser newId t0 t1 t2 a b d = Inr (f, d') \<longrightarrow> stats_live d' a \<and> stats_live d' b) \<and>
   stats_live (unfollowUser t3 t4 a b d) a \<and> stats_live (unfollowUser t3 t4 a b d) b"
proof (intro conjI allI impI)
  fix f d'
  assume r: "followUser newId t0 t1 t2 a b d = Inr (f, d')"
  from followUser_Inr [OF r] show "stats_live d' a"
    by (simp add: stats_live_after_both)
  from followUser_Inr [OF r] show "stats_live d' b"
    by (simp add: stats_live_after_both)
next
  show "stats_live (unfollowUser t3 t4 a b d) a"
    by (simp add: unfollowUser_def Let_def stats_live_after_both)
  show "stats_live (unfollowUser t3 t4 a b d) b"
    by (simp add: unfollowUser_def Let_def stats_live_after_both)
qed


lemma drifted_users_follow:
  "followUser ''f1'' 10 11 12 ''alice'' ''bob'' drifted_users =
     Inr (\<lparr>f_id = ''f1'', f_followerId = ''alice'', f_followingId = ''bob'', f_createdAt = Some 10\<rparr>,
          \<lparr>users = [user_row ''alice''\<lparr>u_followersCount := Some 0, u_followingCount := Some 1,
                                        u_updatedAt := Some 11\<rparr>,
                     user_row ''bob''\<lparr>u_followersCount := Some 1, u_followingCount := Some 0,
                                      u_updatedAt := Some 12\<rparr>],
           products = [],
           follows = [\<lparr>f_id = ''f1'', f_followerId = ''alice'', f_followingId = ''bob'',
                       f_createdAt = Some 10\<rparr>],
           productLikes = [], productBookmarks = [], cartItems = [], orders = []\<rparr>)"
  by (simp add: followUser_def insert_follow_def has_id_def drifted_users_def empty_db_def
      user_row_def updateUserStats_def count_followers_def count_following_def Let_def)

theorem follow_counters_are_live_counts_witness:
  "map u_followersCount (users drifted_users) = [Some 7, Some 5] \<and>
   map u_followingCount (users drifted_users) = [None, Some 0] \<and>
   (\<exists>f d'. followUser ''f1'' 10 11 12 ''alice'' ''bob'' drifted_users = Inr (f, d') \<and>
     stats_live d' ''alice'' \<and> stats_live d' ''bob'' \<and>
     count_followers d' ''bob'' = 1 \<and> count_following d' ''alice'' = 1 \<and>
     map u_followersCount (users d') = [Some 0, Some 1] \<and>
     map u_followingCount (users d') = [Some 1, Some 0] \<and>
     stats_live (unfollowUser 13 14 ''alice'' ''bob'' d') ''alice'' \<and>
     stats_live (unfollowUser 13 14 ''alice'' ''bob'' d') ''bob'' \<and>
     map u_followersCount (users (unfollowUser 13 14 ''alice'' ''bob'' d')) = [Some 0, Some 0] \<and>
     map u_followingCount (users (unfollowUser 13 14 ''alice'' ''bob'' d')) = [Some 0, Some 0])"
proof -
  obtain f d' where r: "followUser ''f1'' 10 11 12 ''alice'' ''bob'' drifted_users = Inr (f, d')"
    using drifted_users_follow by blast
  have live: "stats_live d' ''alice'' \<and> stats_live d' ''bob''"
    using follow_counters_are_live_counts [of "''f1''" 10 11 12 "''alice''" "''bob''" drifted_users] r
    by blast
  have live': "stats_live (unfollowUser 13 14 ''alice'' ''bob'' d') ''alice'' \<and>
      stats_live (unfollowUser 13 14 ''alice'' ''bob'' d') ''bob''"
    using follow_counters_are_live_counts [of _ _ _ _ "''alice''" "''bob''" d' 13 14] by blast
  have d': "d' = \<lparr>users = [user_row ''alice''\<lparr>u_followersCount := Some 0, u_followingCount := Some 1,
                                        u_updatedAt := Some 11\<rparr>,
                     user_row ''bob''\<lparr>u_followersCount := Some 1, u_followingCount := Some 0,
                                      u_updatedAt := Some 12\<rparr>],
           products = [],
           follows = [\<lparr>f_id = ''f1'', f_followerId = ''alice'', f_followingId = ''bob'',
                       f_createdAt = Some 10\<rparr>],
           productLikes = [], productBookmarks = [], cartItems = [], orders = []\<rparr>"
    using r unfolding drifted_users_follow by auto
  have vals: "count_followers d' ''bob'' = 1 \<and> count_following d' ''alice'' = 1 \<and>
     map u_followersCount (users d') = [Some 0, Some 1] \<and>
     map u_followingCount (users d') = [Some 1, Some 0] \<and>
     map u_followersCount (users (unfollowUser 13 14 ''alice'' ''bob'' d')) = [Some 0, Some 0] \<and>
     map u_followingCount (users (unfollowUser 13 14 ''alice'' ''bob'' d')) = [Some 0, Some 0]"
    unfolding d'
    by (simp add: count_followers_def count_following_def user_row_def unfollowUser_def
        updateUserStats_def Let_def)
  have before: "map u_followersCount (users drifted_users) = [Some 7, Some 5] \<and>
      map u_followingCount (users drifted_users) = [None, Some 0]"
    by (simp add: drifted_users_def empty_db_def user_row_def)
  have after: "\<exists>f d'. followUser ''f1'' 10 11 12 ''alice'' ''bob'' drifted_users = Inr (f, d') \<and>
     stats_live d' ''alice'' \<and> stats_live d' ''bob'' \<and>
     count_followers d' ''bob'' = 1 \<and> count_following d' ''alice'' = 1 \<and>
     map u_followersCount (users d') = [Some 0, Some 1] \<and>
     map u_followingCount (users d') = [Some 1, Some 0] \<and>
     stats_live (unfollowUser 13 14 ''alice'' ''bob'' d') ''alice'' \<and>
     stats_live (unfollowUser 13 14 ''alice'' ''bob'' d') ''bob'' \<and>
     map u_followersCount (users (unfollowUser 13 14 ''alice'' ''bob'' d')) = [Some 0, Some 0] \<and>
     map u_followingCount (users (unfollowUser 13 14 ''alice'' ''bob'' d')) = [Some 0, Some 0]"
    apply (rule exI [of _ f])
    apply (rule exI [of _ d'])
    using r live live' vals apply simp
    done
  from before after show ?thesis by simp
qed


subsection \<open>Likes\<close>

lemma first_of_updated_rows:
  "(\<And>x. key (g x) = key x) \<Longrightarrow>
   (case filter (\<lambda>x. key x = i) (map (\<lambda>x. if key x = i then g x else x) xs) of
      [] \<Rightarrow> None | y # _ \<Rightarrow> Some y) =
   map_option g (case filter (\<lambda>x. key x = i) xs of [] \<Rightarrow> None | y # _ \<Rightarrow> Some y)"
  by (induction xs) auto

lemma getProduct_updated:
  "(\<And>x. p_id (g x) = p_id x) \<Longrightarrow>
   getProduct i (d\<lparr>products := map (\<lambda>x. if p_id x = i then g x else x) (products d)\<rparr>) =
     map_option g (getProduct i d)"
  unfolding getProduct_def by (simp add: first_of_updated_rows [where key = p_id])

lemma getProduct_productLikes_update [simp]:
  "getProduct i (d\<lparr>productLikes := ls\<rparr>) = getProduct i d"
  by (simp add: getProduct_def)

lemma getProduct_in_products:
  "getProduct p d = Some pr \<Longrightarrow> pr \<in> set (products d) \<and> p_id pr = p"
proof -
  assume "getProduct p d = Some pr"
  then obtain rest where "filter (\<lambda>x. p_id x = p) (products d) = pr # rest"
    by (auto simp: getProduct_def split: list.splits)
  then have "pr \<in> set (filter (\<lambda>x. p_id x = p) (products d))"
    by simp
  then show ?thesis by simp
qed

lemma only_row_of_id:
  assumes "distinct (map p_id (products d))" and "getProduct p d = Some pr"
    and "x \<in> set (products d)" and "p_id x = p"
  shows "x = pr"
proof -
  from getProduct_in_products [OF assms(2)] have "pr \<in> set (products d)" "p_id pr = p"
    by simp_all
  moreover from assms(1) have "inj_on p_id (set (products d))"
    by (simp add: distinct_map)
  ultimately show ?thesis
    using assms(3,4) by (auto dest: inj_onD)
qed

lemma update_likesCount_accepted:
  assumes "distinct (map p_id (products d))" and "getProduct p d = Some pr"
    and "p_likesCount pr = Some c" and "int4 (f c)"
  shows "update_likesCount f p d =
     Inr (d\<lparr>products := map (\<lambda>x. if p_id x = p
                       then x\<lparr>p_likesCount := map_option f (p_likesCount x)\<rparr>
                       else x) (products d)\<rparr>)"
proof -
  have "\<not> (\<exists>x \<in> set (products d). p_id x = p \<and>
           (case p_likesCount x of None \<Rightarrow> False | Some c \<Rightarrow> \<not> int4 (f c)))"
  proof
    assume "\<exists>x \<in> set (products d). p_id x = p \<and>
           (case p_likesCount x of None \<Rightarrow> False | Some c \<Rightarrow> \<not> int4 (f c))"
    then obtain x where x: "x \<in> set (products d)" "p_id x = p"
      and bad: "case p_likesCount x of None \<Rightarrow> False | Some c \<Rightarrow> \<not> int4 (f c)"
      by blast
    from only_row_of_id [OF assms(1,2) x] have "x = pr" .
    with bad assms(3,4) show False by simp
  qed
  then show ?thesis
    by (simp add: update_likesCount_def)
qed

lemma update_likesCount_rejected:
  assumes "getProduct p d = Some pr" and "p_likesCount pr = Some c" and "\<not> int4 (f c)"
  shows "update_likesCount f p d = Inl NumericValueOutOfRange"
proof -
  from getProduct_in_products [OF assms(1)] assms(2,3)
  have "\<exists>x \<in> set (products d). p_id x = p \<and>
           (case p_likesCount x of None \<Rightarrow> False | Some c \<Rightarrow> \<not> int4 (f c))"
    by (intro bexI [of _ pr]) simp_all
  then show ?thesis
    by (simp add: update_likesCount_def)
qed

lemma filter_no_match:
  "filter P xs = [] \<Longrightarrow> filter (\<lambda>x. \<not> P x) xs = xs"
  by (induction xs) (auto split: if_splits)


lemma like_accepted:
  assumes ids: "distinct (map p_id (products d))" and pr: "getProduct p d = Some pr"
    and c: "p_likesCount pr = Some c" and range: "int4 (c + 1)"
    and user: "has_id u_id (users d) u" and fresh: "\<not> has_id pl_id (productLikes d) newId"
    and l: "l = \<lparr>pl_id = newId, pl_userId = u, pl_productId = p, pl_createdAt = Some t0\<rparr>"
    and d1: "d1 = d\<lparr>productLikes := productLikes d @ [l],
                      products := map (\<lambda>x. if p_id x = p
                          then x\<lparr>p_likesCount := map_option (\<lambda>c. c + 1) (p_likesCount x)\<rparr>
                          else x) (products d)\<rparr>"
  shows "likeProduct newId t0 u p d = (Inr l, d1)"
proof -
  have product: "has_id p_id (products d) p"
    using getProduct_in_products [OF pr] by (auto simp: has_id_def)
  have ins: "insert_productLike l d = Inr (d\<lparr>productLikes := productLikes d @ [l]\<rparr>)"
    using user fresh product by (simp add: insert_productLike_def l)
  have "update_likesCount (\<lambda>c. c + 1) p (d\<lparr>productLikes := productLikes d @ [l]\<rparr>) = Inr d1"
    using update_likesCount_accepted [of "d\<lparr>productLikes := productLikes d @ [l]\<rparr>" p pr c "\<lambda>c. c + 1"]
      ids pr c range
    by (simp add: d1)
  with ins show ?thesis
    by (simp add: likeProduct_def l [symmetric])
qed

lemma unlike_accepted:
  assumes ids: "distinct (map p_id (products d))" and pr: "getProduct p d = Some pr"
    and c: "p_likesCount pr = Some c" and range: "int4 (c - 1)"
    and d2: "d2 = d\<lparr>productLikes := filter (\<lambda>l. \<not> (pl_userId l = u \<and> pl_productId l = p)) (productLikes d),
                      products := map (\<lambda>x. if p_id x = p
                          then x\<lparr>p_likesCount := map_option (\<lambda>c. c - 1) (p_likesCount x)\<rparr>
                          else x) (products d)\<rparr>"
  shows "unlikeProduct u p d = (Inr (), d2)"
proof -
  let ?d1 = "d\<lparr>productLikes := filter (\<lambda>l. \<not> (pl_userId l = u \<and> pl_productId l = p)) (productLikes d)\<rparr>"
  have "update_likesCount (\<lambda>c. c - 1) p ?d1 = Inr d2"
    using update_likesCount_accepted [of ?d1 p pr c "\<lambda>c. c - 1"] ids pr c range
    by (simp add: d2)
  then show ?thesis
    by (simp add: unlikeProduct_def Let_def)
qed

lemma unlike_undoes_like_row:
  "(\<lambda>x. if p_id x = p then x\<lparr>p_likesCount := map_option (\<lambda>c. c - 1) (p_likesCount x)\<rparr> else x)
     ((\<lambda>x. if p_id x = p then x\<lparr>p_likesCount := map_option (\<lambda>c. c + 1) (p_likesCount x)\<rparr> else x) r)
   = (r :: Product)"
  by (simp add: option.map_comp comp_def option.map_ident)

text \<open>
  C3 (as amended). For a stored user \<open>u\<close> and a product \<open>p\<close> (ids being the primary key)
  whose \<open>likesCount\<close> is a value \<open>c\<close> of the counter column below its largest,
  \<open>2147483647\<close>: \<open>likeProduct(u, p)\<close> returns (the generated id being new) and leaves the
  counter at \<open>c + 1\<close>; \<open>unlikeProduct(u, p)\<close>, run next, returns and leaves the product row
  as it was before the like, with \<open>likesCount\<close> \<open>c\<close>, and the products table with the
  rows it had.
\<close>

theorem like_then_unlike_restores_likesCount:
  assumes ids: "distinct (map p_id (products d))" and pr: "getProduct p d = Some pr"
    and c: "p_likesCount pr = Some c" and range: "int4 c" and below: "c < 2147483647"
    and user: "has_id u_id (users d) u" and fresh: "\<not> has_id pl_id (productLikes d) newId"
  shows "\<exists>l d1 d2.
      likeProduct newId t0 u p d = (Inr l, d1) \<and>
      getProduct p d1 = Some (pr\<lparr>p_likesCount := Some (c + 1)\<rparr>) \<and>
      unlikeProduct u p d1 = (Inr (), d2) \<and>
      getProduct p d2 = Some pr \<and> p_likesCount pr = Some c \<and>
      mset (products d2) = mset (products d)"
proof -
  let ?inc = "\<lambda>x. if p_id x = p then x\<lparr>p_likesCount := map_option (\<lambda>c. c + 1) (p_likesCount x)\<rparr> else x"
  let ?dec = "\<lambda>x. if p_id x = p then x\<lparr>p_likesCount := map_option (\<lambda>c. c - 1) (p_likesCount x)\<rparr> else x"
  define l where "l = \<lparr>pl_id = newId, pl_userId = u, pl_productId = p, pl_createdAt = Some t0\<rparr>"
  define d1 where "d1 = d\<lparr>productLikes := productLikes d @ [l], products := map ?inc (products d)\<rparr>"
  define d2 where "d2 = d1\<lparr>productLikes := filter (\<lambda>l. \<not> (pl_userId l = u \<and> pl_productId l = p)) (productLikes d1),
                      products := map ?dec (products d1)\<rparr>"
  from range below have up: "int4 (c + 1)" and down: "int4 (c + 1 - 1)"
    by (simp_all add: int4_def)
  have like: "likeProduct newId t0 u p d = (Inr l, d1)"
    by (rule like_accepted [OF ids pr c up user fresh l_def d1_def])
  have "d1 = (d\<lparr>products := map ?inc (products d)\<rparr>)\<lparr>productLikes := productLikes d @ [l]\<rparr>"
    by (simp add: d1_def)
  then have pr1: "getProduct p d1 = Some (pr\<lparr>p_likesCount := Some (c + 1)\<rparr>)"
    by (simp add: getProduct_updated pr c)
  have ids1: "distinct (map p_id (products d1))"
  proof -
    have "map p_id (products d1) = map p_id (products d)"
      by (simp add: d1_def comp_def)
    with ids show ?thesis by simp
  qed
  have c1: "p_likesCount (pr\<lparr>p_likesCount := Some (c + 1)\<rparr>) = Some (c + 1)"
    by simp
  have unlike: "unlikeProduct u p d1 = (Inr (), d2)"
    by (rule unlike_accepted [OF ids1 pr1 c1 down d2_def])
  have "products d2 = map ?dec (map ?inc (products d))"
    by (simp add: d2_def d1_def)
  also have "\<dots> = map (\<lambda>r. r) (products d)"
    unfolding map_map comp_def unlike_undoes_like_row ..
  finally have same: "products d2 = products d"
    by simp
  then have pr2: "getProduct p d2 = Some pr"
    using pr by (simp add: getProduct_def)
  from like pr1 unlike pr2 c same show ?thesis
    by auto
qed

text \<open>
  At the largest counter value the like row is stored and the counter update is
  rejected; \<open>unlikeProduct\<close>, run next, returns and leaves the counter at
  \<open>2147483646\<close>, one below the value before the like.
\<close>

theorem like_at_largest_counter_counterexample:
  "map p_likesCount (products full_counter_shop) = [Some 2147483647] \<and>
   likeProduct ''l1'' 20 ''alice'' ''p1'' full_counter_shop =
     (Inl NumericValueOutOfRange,
      full_counter_shop\<lparr>productLikes :=
        [\<lparr>pl_id = ''l1'', pl_userId = ''alice'', pl_productId = ''p1'', pl_createdAt = Some 20\<rparr>]\<rparr>) \<and>
   fst (unlikeProduct ''alice'' ''p1''
          (full_counter_shop\<lparr>productLikes :=
             [\<lparr>pl_id = ''l1'', pl_userId = ''alice'', pl_productId = ''p1'', pl_createdAt = Some 20\<rparr>]\<rparr>)) =
     Inr () \<and>
   map p_likesCount
     (products (snd (unlikeProduct ''alice'' ''p1''
          (full_counter_shop\<lparr>productLikes :=
             [\<lparr>pl_id = ''l1'', pl_userId = ''alice'', pl_productId = ''p1'', pl_createdAt = Some 20\<rparr>]\<rparr>)))) =
     [Some 2147483646]"
  by (simp add: likeProduct_def unlikeProduct_def insert_productLike_def update_likesCount_def
      has_id_def int4_def full_counter_shop_def two_users_def empty_db_def user_row_def
      product_row_def Let_def)

lemma shop_getProduct:
  "getProduct ''p1'' shop = Some (product_row ''p1'' ''bob'' ''Shoe'' ''a red shoe'')"
  by (simp add: getProduct_def shop_def two_users_def empty_db_def product_row_def)

theorem like_then_unlike_restores_likesCount_witness:
  "\<exists>l d1 d2.
      likeProduct ''l1'' 20 ''alice'' ''p1'' shop = (Inr l, d1) \<and>
      getProduct ''p1'' d1 =
        Some ((product_row ''p1'' ''bob'' ''Shoe'' ''a red shoe'')\<lparr>p_likesCount := Some 1\<rparr>) \<and>
      unlikeProduct ''alice'' ''p1'' d1 = (Inr (), d2) \<and>
      getProduct ''p1'' d2 = Some (product_row ''p1'' ''bob'' ''Shoe'' ''a red shoe'') \<and>
      p_likesCount (product_row ''p1'' ''bob'' ''Shoe'' ''a red shoe'') = Some 0 \<and>
      mset (products d2) = mset (products shop)"
proof -
  have ids: "distinct (map p_id (products shop))"
    by (simp add: shop_def)
  have c: "p_likesCount (product_row ''p1'' ''bob'' ''Shoe'' ''a red shoe'') = Some 0"
    by (simp add: product_row_def)
  have range: "int4 0" "(0 :: int) < 2147483647"
    by (simp_all add: int4_def)
  have user: "has_id u_id (users shop) ''alice''"
    by (simp add: has_id_def shop_def two_users_def empty_db_def user_row_def)
  have fresh: "\<not> has_id pl_id (productLikes shop) ''l1''"
    by (simp add: has_id_def shop_def two_users_def empty_db_def)
  from like_then_unlike_restores_likesCount [OF ids shop_getProduct c range user fresh, of 20]
  show ?thesis by simp
qed

lemma productLikes_unlike_no_edge:
  "\<not> isProductLiked u p d \<Longrightarrow>
     filter (\<lambda>l. \<not> (pl_userId l = u \<and> pl_productId l = p)) (productLikes d) = productLikes d"
proof -
  assume "\<not> isProductLiked u p d"
  then have "filter (\<lambda>l. pl_userId l = u \<and> pl_productId l = p) (productLikes d) = []"
    by (simp add: isProductLiked_def Let_def)
  then show ?thesis
    by (rule filter_no_match)
qed

text \<open>
  C10 (as amended). When no like edge \<open>(u, p)\<close> exists and the \<open>likesCount\<close> of product
  \<open>p\<close> (ids being the primary key) is a value \<open>c\<close> of the counter column above its
  smallest, \<open>-2147483648\<close>: \<open>unlikeProduct(u, p)\<close> returns, leaves the like edges as they
  are and lowers the counter to \<open>c - 1\<close>. A counter that equalled the number of like edges
  of \<open>p\<close> is one below it afterwards, and a counter \<open>0\<close> becomes \<open>-1\<close>.
\<close>

theorem unlike_without_like_still_decrements:
  assumes no_edge: "\<not> isProductLiked u p d"
    and ids: "distinct (map p_id (products d))" and pr: "getProduct p d = Some pr"
    and c: "p_likesCount pr = Some c" and range: "int4 c" and above: "- 2147483648 < c"
  shows "\<exists>d'. unlikeProduct u p d = (Inr (), d') \<and>
     productLikes d' = productLikes d \<and>
     getProduct p d' = Some (pr\<lparr>p_likesCount := Some (c - 1)\<rparr>) \<and>
     (c = count_likes d p \<longrightarrow>
        getProduct p d' = Some (pr\<lparr>p_likesCount := Some (count_likes d' p - 1)\<rparr>)) \<and>
     (c = 0 \<longrightarrow> getProduct p d' = Some (pr\<lparr>p_likesCount := Some (- 1)\<rparr>))"
proof -
  let ?dec = "\<lambda>x. if p_id x = p then x\<lparr>p_likesCount := map_option (\<lambda>c. c - 1) (p_likesCount x)\<rparr> else x"
  define d' where "d' = d\<lparr>productLikes := filter (\<lambda>l. \<not> (pl_userId l = u \<and> pl_productId l = p)) (productLikes d),
                      products := map ?dec (products d)\<rparr>"
  from range above have down: "int4 (c - 1)"
    by (simp add: int4_def)
  have r: "unlikeProduct u p d = (Inr (), d')"
    by (rule unlike_accepted [OF ids pr c down d'_def])
  have likes: "productLikes d' = productLikes d"
    using productLikes_unlike_no_edge [OF no_edge] by (simp add: d'_def)
  have "d' = (d\<lparr>products := map ?dec (products d)\<rparr>)
      \<lparr>productLikes := filter (\<lambda>l. \<not> (pl_userId l = u \<and> pl_productId l = p)) (productLikes d)\<rparr>"
    by (simp add: d'_def)
  then have after: "getProduct p d' = Some (pr\<lparr>p_likesCount := Some (c - 1)\<rparr>)"
    by (simp add: getProduct_updated pr c)
  have "count_likes d' p = count_likes d p"
    by (simp add: count_likes_def likes)
  with r likes after show ?thesis
    by auto
qed

text \<open>
  At the smallest counter value the update is rejected: the counter stays at
  \<open>-2147483648\<close>.
\<close>

theorem unlike_at_smallest_counter_counterexample:
  "\<not> isProductLiked ''alice'' ''p1'' lowest_counter_shop \<and>
   map p_likesCount (products lowest_counter_shop) = [Some (- 2147483648)] \<and>
   unlikeProduct ''alice'' ''p1'' lowest_counter_shop =
     (Inl NumericValueOutOfRange, lowest_counter_shop)"
  by (simp add: isProductLiked_def unlikeProduct_def update_likesCount_def int4_def
      lowest_counter_shop_def two_users_def empty_db_def product_row_def Let_def)

theorem unlike_without_like_still_decrements_witness:
  "\<not> isProductLiked ''alice'' ''p1'' shop \<and>
   getProduct ''p1'' shop = Some (product_row ''p1'' ''bob'' ''Shoe'' ''a red shoe'') \<and>
   p_likesCount (product_row ''p1'' ''bob'' ''Shoe'' ''a red shoe'') = Some 0 \<and>
   count_likes shop ''p1'' = 0 \<and>
   (\<exists>d'. unlikeProduct ''alice'' ''p1'' shop = (Inr (), d') \<and>
      productLikes d' = [] \<and>
      getProduct ''p1'' d' =
        Some ((product_row ''p1'' ''bob'' ''Shoe'' ''a red shoe'')\<lparr>p_likesCount := Some (- 1)\<rparr>))"
proof -
  have no_edge: "\<not> isProductLiked ''alice'' ''p1'' shop"
    by (simp add: isProductLiked_def shop_def two_users_def empty_db_def)
  have ids: "distinct (map p_id (products shop))"
    by (simp add: shop_def)
  have c: "p_likesCount (product_row ''p1'' ''bob'' ''Shoe'' ''a red shoe'') = Some 0"
    by (simp add: product_row_def)
  have range: "int4 0" "- 2147483648 < (0 :: int)"
    by (simp_all add: int4_def)
  have n: "count_likes shop ''p1'' = 0" "productLikes shop = []"
    by (simp_all add: count_likes_def shop_def two_users_def empty_db_def)
  from unlike_without_like_still_decrements [OF no_edge ids shop_getProduct c range]
  obtain d' where "unlikeProduct ''alice'' ''p1'' shop = (Inr (), d')"
    "productLikes d' = productLikes shop"
    "getProduct ''p1'' d' =
        Some ((product_row ''p1'' ''bob'' ''Shoe'' ''a red shoe'')\<lparr>p_likesCount := Some (0 - 1)\<rparr>)"
    by blast
  with no_edge c n shop_getProduct show ?thesis
    by simp
qed

subsection \<open>Orders\<close>

lemma filter_key_distinct:
  "distinct (map key xs) \<Longrightarrow> x \<in> set xs \<Longrightarrow> filter (\<lambda>y. key y = key x) xs = [x]"
proof (induction xs)
  case Nil
  then show ?case by simp
next
  case (Cons a xs)
  show ?case
  proof (cases "a = x")
    case True
    with Cons.prems have "\<forall>y \<in> set xs. key y \<noteq> key x"
      by (auto simp: image_iff)
    then have "filter (\<lambda>y. key y = key x) xs = []"
      by (simp add: filter_empty_conv)
    with True show ?thesis by simp
  next
    case False
    with Cons.prems have "x \<in> set xs" "key a \<noteq> key x" "distinct (map key xs)"
      by (auto simp: image_iff)
    with Cons.IH show ?thesis by simp
  qed
qed

lemma map_update_key_distinct:
  "distinct (map key xs) \<Longrightarrow> x \<in> set xs \<Longrightarrow>
     map (\<lambda>y. if key y = key x then g y else y) xs = map (\<lambda>y. if y = x then g x else y) xs"
proof -
  assume "distinct (map key xs)" and x: "x \<in> set xs"
  then have "inj_on key (set xs)"
    by (simp add: distinct_map)
  with x have "\<And>y. y \<in> set xs \<Longrightarrow> (key y = key x) = (y = x)"
    by (auto dest: inj_onD)
  then show ?thesis
    by (auto intro!: map_cong)
qed




subsection \<open>Cart\<close>

lemma cart_rows_single:
  assumes "cart_ok d" "e \<in> set (cartItems d)"
  shows "cart_rows (ci_userId e) (ci_productId e) d = [e]"
proof -
  have "filter (\<lambda>y. (ci_userId y, ci_productId y) = (ci_userId e, ci_productId e)) (cartItems d) = [e]"
    using assms filter_key_distinct [where key = "\<lambda>c. (ci_userId c, ci_productId c)" and xs = "cartItems d" and x = e]
    by (simp add: cart_ok_def)
  then show ?thesis
    by (simp add: cart_rows_def)
qed

lemma filter_map_same_pred:
  "(\<And>x. P (f x) = P x) \<Longrightarrow> filter P (map f xs) = map f (filter P xs)"
  by (induction xs) auto

lemma addToCart_existing:
  assumes ok: "cart_ok d" and e: "e \<in> set (cartItems d)"
    and u: "ci_userId e = u" and p: "ci_productId e = p"
    and range: "int4 (js_plus (ci_quantity e) (js_or_1 q))"
    and e': "e' = e\<lparr>ci_quantity := Some (js_plus (ci_quantity e) (js_or_1 q)), ci_updatedAt := Some tb\<rparr>"
    and d': "d' = d\<lparr>cartItems := map (\<lambda>c. if c = e then e' else c) (cartItems d)\<rparr>"
  shows "addToCart newId ta tb \<lparr>ici_userId = u, ici_productId = p, ici_quantity = q\<rparr> d = Inr (Some e', d')"
    and "cart_rows u p d' = [e']"
    and "cart_ok d'"
    and "length (cartItems d') = length (cartItems d)"
proof -
  have rows: "filter (\<lambda>c. ci_userId c = u \<and> ci_productId c = p) (cartItems d) = [e]"
    using cart_rows_single [OF ok e] u p by (simp add: cart_rows_def)
  have ids: "filter (\<lambda>c. ci_id c = ci_id e) (cartItems d) = [e]"
    using ok e filter_key_distinct [where key = ci_id and xs = "cartItems d" and x = e]
    by (simp add: cart_ok_def)
  have upd: "map (\<lambda>c. if ci_id c = ci_id e then g c else c) (cartItems d) =
      map (\<lambda>c. if c = e then g e else c) (cartItems d)" for g
    using ok e map_update_key_distinct [where key = ci_id and xs = "cartItems d" and x = e and g = g]
    by (simp add: cart_ok_def)
  show "addToCart newId ta tb \<lparr>ici_userId = u, ici_productId = p, ici_quantity = q\<rparr> d = Inr (Some e', d')"
    using range by (simp add: addToCart_def rows ids upd Let_def e' d')
  have keep: "ci_userId (if c = e then e' else c) = ci_userId c \<and>
      ci_productId (if c = e then e' else c) = ci_productId c \<and>
      ci_id (if c = e then e' else c) = ci_id c" for c
    by (simp add: e')
  have "cart_rows u p d' = map (\<lambda>c. if c = e then e' else c) (filter (\<lambda>c. ci_userId c = u \<and> ci_productId c = p) (cartItems d))"
    unfolding cart_rows_def d' using keep
    by (simp add: filter_map_same_pred)
  then show "cart_rows u p d' = [e']"
    by (simp add: rows)
  have "map ci_id (cartItems d') = map ci_id (cartItems d)"
    "map (\<lambda>c. (ci_userId c, ci_productId c)) (cartItems d') = map (\<lambda>c. (ci_userId c, ci_productId c)) (cartItems d)"
    unfolding d' using keep by (simp_all add: comp_def)
  with ok show "cart_ok d'"
    by (simp add: cart_ok_def)
  show "length (cartItems d') = length (cartItems d)"
    by (simp add: d')
qed

lemma addToCart_new:
  assumes none: "cart_rows u p d = []"
    and fresh: "\<not> has_id ci_id (cartItems d) newId"
    and user: "has_id u_id (users d) u" and product: "has_id p_id (products d) p"
    and range: "int4_column (column_value 1 q)"
    and n: "n = \<lparr>ci_id = newId, ci_userId = u, ci_productId = p, ci_quantity = column_value 1 q,
                 ci_createdAt = Some ta, ci_updatedAt = Some ta\<rparr>"
    and d': "d' = d\<lparr>cartItems := cartItems d @ [n]\<rparr>"
  shows "addToCart newId ta tb \<lparr>ici_userId = u, ici_productId = p, ici_quantity = q\<rparr> d = Inr (Some n, d')"
    and "cart_rows u p d' = [n]"
    and "cart_ok d \<Longrightarrow> cart_ok d'"
proof -
  show "addToCart newId ta tb \<lparr>ici_userId = u, ici_productId = p, ici_quantity = q\<rparr> d = Inr (Some n, d')"
    using none fresh user product range
    by (simp add: addToCart_def cart_rows_def insert_cartItem_def Let_def n d')
  show "cart_rows u p d' = [n]"
    using none by (simp add: cart_rows_def d' n)
  have "(u, p) \<notin> set (map (\<lambda>c. (ci_userId c, ci_productId c)) (cartItems d))"
    using none by (auto simp: cart_rows_def filter_empty_conv)
  moreover have "newId \<notin> set (map ci_id (cartItems d))"
    using fresh by (simp add: has_id_def)
  ultimately show "cart_ok d \<Longrightarrow> cart_ok d'"
    by (simp add: cart_ok_def d' n)
qed


lemma addToCart_rejected:
  assumes ok: "cart_ok d" and e: "e \<in> set (cartItems d)"
    and u: "ci_userId e = u" and p: "ci_productId e = p"
    and range: "\<not> int4 (js_plus (ci_quantity e) (js_or_1 q))"
  shows "addToCart newId ta tb \<lparr>ici_userId = u, ici_productId = p, ici_quantity = q\<rparr> d =
     Inl NumericValueOutOfRange"
proof -
  have rows: "filter (\<lambda>c. ci_userId c = u \<and> ci_productId c = p) (cartItems d) = [e]"
    using cart_rows_single [OF ok e] u p by (simp add: cart_rows_def)
  show ?thesis
    using range by (simp add: addToCart_def rows Let_def)
qed

lemma js_or_1_cases:
  "(\<forall>n. n \<noteq> 0 \<longrightarrow> js_or_1 (Value n) = n) \<and> js_or_1 (Value 0) = 1 \<and>
   js_or_1 Undefined = 1 \<and> js_or_1 Null = 1"
  by (simp add: js_or_1_def)

lemma addToCart_twice:
  assumes ok: "cart_ok d" and none: "cart_rows u p d = []"
    and fresh: "\<not> has_id ci_id (cartItems d) newId"
    and user: "has_id u_id (users d) u" and product: "has_id p_id (products d) p"
    and q1: "int4 q1" and sum: "int4 (q1 + js_or_1 q)"
  shows "\<exists>r1 d1 r2 d2.
      addToCart newId t0 t1 \<lparr>ici_userId = u, ici_productId = p, ici_quantity = Value q1\<rparr> d = Inr (Some r1, d1) \<and>
      addToCart newId2 t2 t3 \<lparr>ici_userId = u, ici_productId = p, ici_quantity = q\<rparr> d1 = Inr (Some r2, d2) \<and>
      cart_rows u p d2 = [r2] \<and> ci_quantity r2 = Some (q1 + js_or_1 q)"
proof -
  define r1 where "r1 = \<lparr>ci_id = newId, ci_userId = u, ci_productId = p,
      ci_quantity = column_value 1 (Value q1), ci_createdAt = Some t0, ci_updatedAt = Some t0\<rparr>"
  define d1 where "d1 = d\<lparr>cartItems := cartItems d @ [r1]\<rparr>"
  define r2 where "r2 = r1\<lparr>ci_quantity := Some (js_plus (ci_quantity r1) (js_or_1 q)),
      ci_updatedAt := Some t3\<rparr>"
  define d2 where "d2 = d1\<lparr>cartItems := map (\<lambda>c. if c = r1 then r2 else c) (cartItems d1)\<rparr>"
  have range1: "int4_column (column_value 1 (Value q1))"
    using q1 by (simp add: int4_column_def column_value_def)
  note first = addToCart_new [OF none fresh user product range1 r1_def d1_def]
  have ok1: "cart_ok d1" by (rule first(3) [OF ok])
  have r1: "r1 \<in> set (cartItems d1)" "ci_userId r1 = u" "ci_productId r1 = p"
    by (simp_all add: d1_def r1_def)
  have range2: "int4 (js_plus (ci_quantity r1) (js_or_1 q))"
    using sum by (simp add: r1_def column_value_def js_plus_def)
  note second = addToCart_existing [OF ok1 r1 range2 r2_def d2_def]
  have "ci_quantity r2 = Some (q1 + js_or_1 q)"
    by (simp add: r2_def r1_def column_value_def js_plus_def)
  with first(1) second(1,2) show ?thesis by blast
qed

text \<open>
  C1 (as amended). In a cart table with a primary key and at most one row for each user and
  product: when the cart holds a row for \<open>(u, p)\<close> with quantity \<open>q0\<close> and
  \<open>q0 + (q || 1)\<close> is a value of the 32-bit quantity column,
  \<open>addToCart({userId: u, productId: p, quantity: q})\<close> returns that row with quantity
  \<open>q0 + (q || 1)\<close> and stores it, leaving exactly one row for \<open>(u, p)\<close> and the number of
  rows unchanged; when the sum is no value of the column the call is rejected. \<open>q || 1\<close>
  is \<open>q\<close> for a non-zero \<open>q\<close> and \<open>1\<close> for \<open>0\<close> or a missing quantity. When no row for
  \<open>(u, p)\<close> exists (user and product existing, the generated id new, the quantity a
  value of the column) it inserts a single row; adding to the same pair twice leaves
  one row, with quantity \<open>q1 + (q || 1)\<close>, when \<open>q1\<close> and that sum are values of the column.
\<close>

theorem addToCart_merges_quantity:
  "cart_ok d \<Longrightarrow>
   (\<forall>e q0. e \<in> set (cartItems d) \<and> ci_userId e = u \<and> ci_productId e = p \<and> ci_quantity e = Some q0 \<longrightarrow>
      (int4 (q0 + js_or_1 q) \<longrightarrow>
        (\<exists>d'. addToCart newId t0 t1 \<lparr>ici_userId = u, ici_productId = p, ici_quantity = q\<rparr> d =
               Inr (Some (e\<lparr>ci_quantity := Some (q0 + js_or_1 q), ci_updatedAt := Some t1\<rparr>), d') \<and>
            cart_rows u p d' = [e\<lparr>ci_quantity := Some (q0 + js_or_1 q), ci_updatedAt := Some t1\<rparr>] \<and>
            length (cartItems d') = length (cartItems d) \<and> cart_ok d')) \<and>
      (\<not> int4 (q0 + js_or_1 q) \<longrightarrow>
         addToCart newId t0 t1 \<lparr>ici_userId = u, ici_productId = p, ici_quantity = q\<rparr> d =
           Inl NumericValueOutOfRange)) \<and>
   (cart_rows u p d = [] \<and> \<not> has_id ci_id (cartItems d) newId \<and>
    has_id u_id (users d) u \<and> has_id p_id (products d) p \<longrightarrow>
      (int4_column (column_value 1 q) \<longrightarrow>
        (\<exists>n d'. addToCart newId t0 t1 \<lparr>ici_userId = u, ici_productId = p, ici_quantity = q\<rparr> d =
                 Inr (Some n, d') \<and>
              ci_userId n = u \<and> ci_productId n = p \<and> ci_quantity n = column_value 1 q \<and>
              mset (cartItems d') = mset (cartItems d) + {#n#} \<and>
              cart_rows u p d' = [n] \<and> cart_ok d')) \<and>
      (int4 q1 \<and> int4 (q1 + js_or_1 q) \<longrightarrow>
        (\<exists>r1 d1 r2 d2.
          addToCart newId t0 t1 \<lparr>ici_userId = u, ici_productId = p, ici_quantity = Value q1\<rparr> d =
            Inr (Some r1, d1) \<and>
          addToCart newId2 t2 t3 \<lparr>ici_userId = u, ici_productId = p, ici_quantity = q\<rparr> d1 =
            Inr (Some r2, d2) \<and>
          cart_rows u p d2 = [r2] \<and> ci_quantity r2 = Some (q1 + js_or_1 q)))) \<and>
   (\<forall>n. n \<noteq> 0 \<longrightarrow> js_or_1 (Value n) = n) \<and> js_or_1 (Value 0) = 1 \<and>
   js_or_1 Undefined = 1 \<and> js_or_1 Null = 1"
proof -
  assume ok: "cart_ok d"
  have existing: "(int4 (q0 + js_or_1 q) \<longrightarrow>
        (\<exists>d'. addToCart newId t0 t1 \<lparr>ici_userId = u, ici_productId = p, ici_quantity = q\<rparr> d =
               Inr (Some (e\<lparr>ci_quantity := Some (q0 + js_or_1 q), ci_updatedAt := Some t1\<rparr>), d') \<and>
            cart_rows u p d' = [e\<lparr>ci_quantity := Some (q0 + js_or_1 q), ci_updatedAt := Some t1\<rparr>] \<and>
            length (cartItems d') = length (cartItems d) \<and> cart_ok d')) \<and>
      (\<not> int4 (q0 + js_or_1 q) \<longrightarrow>
         addToCart newId t0 t1 \<lparr>ici_userId = u, ici_productId = p, ici_quantity = q\<rparr> d =
           Inl NumericValueOutOfRange)"
    if e: "e \<in> set (cartItems d) \<and> ci_userId e = u \<and> ci_productId e = p \<and> ci_quantity e = Some q0"
    for e q0
  proof (intro conjI impI)
    let ?e' = "e\<lparr>ci_quantity := Some (q0 + js_or_1 q), ci_updatedAt := Some t1\<rparr>"
    let ?d' = "d\<lparr>cartItems := map (\<lambda>c. if c = e then ?e' else c) (cartItems d)\<rparr>"
    from e have e1: "e \<in> set (cartItems d)" and e2: "ci_userId e = u" and e3: "ci_productId e = p"
      and sum: "js_plus (ci_quantity e) (js_or_1 q) = q0 + js_or_1 q"
      by (simp_all add: js_plus_def)
    {
      assume "int4 (q0 + js_or_1 q)"
      then have range: "int4 (js_plus (ci_quantity e) (js_or_1 q))"
        by (simp add: sum)
      have e': "?e' = e\<lparr>ci_quantity := Some (js_plus (ci_quantity e) (js_or_1 q)), ci_updatedAt := Some t1\<rparr>"
        by (simp add: sum)
      note r = addToCart_existing [OF ok e1 e2 e3 range e' refl]
      show "\<exists>d'. addToCart newId t0 t1 \<lparr>ici_userId = u, ici_productId = p, ici_quantity = q\<rparr> d =
               Inr (Some ?e', d') \<and>
            cart_rows u p d' = [?e'] \<and>
            length (cartItems d') = length (cartItems d) \<and> cart_ok d'"
        using r by (intro exI [of _ ?d']) simp
    }
    {
      assume "\<not> int4 (q0 + js_or_1 q)"
      then have "\<not> int4 (js_plus (ci_quantity e) (js_or_1 q))"
        by (simp add: sum)
      from addToCart_rejected [OF ok e1 e2 e3 this]
      show "addToCart newId t0 t1 \<lparr>ici_userId = u, ici_productId = p, ici_quantity = q\<rparr> d =
           Inl NumericValueOutOfRange" .
    }
  qed
  have absent: "(int4_column (column_value 1 q) \<longrightarrow>
        (\<exists>n d'. addToCart newId t0 t1 \<lparr>ici_userId = u, ici_productId = p, ici_quantity = q\<rparr> d =
                 Inr (Some n, d') \<and>
              ci_userId n = u \<and> ci_productId n = p \<and> ci_quantity n = column_value 1 q \<and>
              mset (cartItems d') = mset (cartItems d) + {#n#} \<and>
              cart_rows u p d' = [n] \<and> cart_ok d')) \<and>
      (int4 q1 \<and> int4 (q1 + js_or_1 q) \<longrightarrow>
        (\<exists>r1 d1 r2 d2.
          addToCart newId t0 t1 \<lparr>ici_userId = u, ici_productId = p, ici_quantity = Value q1\<rparr> d =
            Inr (Some r1, d1) \<and>
          addToCart newId2 t2 t3 \<lparr>ici_userId = u, ici_productId = p, ici_quantity = q\<rparr> d1 =
            Inr (Some r2, d2) \<and>
          cart_rows u p d2 = [r2] \<and> ci_quantity r2 = Some (q1 + js_or_1 q)))"
    if h: "cart_rows u p d = [] \<and> \<not> has_id ci_id (cartItems d) newId \<and>
      has_id u_id (users d) u \<and> has_id p_id (products d) p"
  proof (intro conjI impI)
    let ?n = "\<lparr>ci_id = newId, ci_userId = u, ci_productId = p, ci_quantity = column_value 1 q,
        ci_createdAt = Some t0, ci_updatedAt = Some t0\<rparr>"
    let ?d' = "d\<lparr>cartItems := cartItems d @ [?n]\<rparr>"
    from h have h1: "cart_rows u p d = []" and h2: "\<not> has_id ci_id (cartItems d) newId"
      and h3: "has_id u_id (users d) u" and h4: "has_id p_id (products d) p"
      by simp_all
    {
      assume range: "int4_column (column_value 1 q)"
      note r = addToCart_new [OF h1 h2 h3 h4 range refl refl]
      show "\<exists>n d'. addToCart newId t0 t1 \<lparr>ici_userId = u, ici_productId = p, ici_quantity = q\<rparr> d =
                 Inr (Some n, d') \<and>
              ci_userId n = u \<and> ci_productId n = p \<and> ci_quantity n = column_value 1 q \<and>
              mset (cartItems d') = mset (cartItems d) + {#n#} \<and>
              cart_rows u p d' = [n] \<and> cart_ok d'"
        using r ok by (intro exI [of _ ?n] exI [of _ ?d']) simp
    }
    {
      assume "int4 q1 \<and> int4 (q1 + js_or_1 q)"
      then have q1: "int4 q1" and sum: "int4 (q1 + js_or_1 q)"
        by simp_all
      show "\<exists>r1 d1 r2 d2.
          addToCart newId t0 t1 \<lparr>ici_userId = u, ici_productId = p, ici_quantity = Value q1\<rparr> d =
            Inr (Some r1, d1) \<and>
          addToCart newId2 t2 t3 \<lparr>ici_userId = u, ici_productId = p, ici_quantity = q\<rparr> d1 =
            Inr (Some r2, d2) \<and>
          cart_rows u p d2 = [r2] \<and> ci_quantity r2 = Some (q1 + js_or_1 q)"
        by (rule addToCart_twice [OF ok h1 h2 h3 h4 q1 sum])
    }
  qed
  from existing absent js_or_1_cases show ?thesis
    by blast
qed

text \<open>
  Adding quantity \<open>0\<close> to a row with quantity \<open>2\<close> stores \<open>3\<close>, not \<open>2 + 0\<close>.
\<close>

theorem addToCart_quantity_zero_counterexample:
  "cart_rows ''alice'' ''p1'' cart1 = [cart_row ''c1'' ''alice'' ''p1'' 2] \<and>
   ci_quantity (cart_row ''c1'' ''alice'' ''p1'' 2) = Some 2 \<and>
   addToCart ''c2'' 40 41
       \<lparr>ici_userId = ''alice'', ici_productId = ''p1'', ici_quantity = Value 0\<rparr> cart1 =
     Inr (Some ((cart_row ''c1'' ''alice'' ''p1'' 2)\<lparr>ci_quantity := Some 3, ci_updatedAt := Some 41\<rparr>),
          cart1\<lparr>cartItems :=
            [(cart_row ''c1'' ''alice'' ''p1'' 2)\<lparr>ci_quantity := Some 3, ci_updatedAt := Some 41\<rparr>]\<rparr>) \<and>
   (3 :: int) \<noteq> 2 + 0"
  by (simp add: cart_rows_def addToCart_def cart1_def cart_row_def js_plus_def js_or_1_def int4_def
      Let_def)

lemma cart_ok_cart1: "cart_ok cart1"
  by (simp add: cart_ok_def cart1_def)

lemma cart_ok_shop: "cart_ok shop"
  by (simp add: cart_ok_def shop_def two_users_def empty_db_def)

lemma cart_ok_full_cart: "cart_ok full_cart"
  by (simp add: cart_ok_def full_cart_def)

theorem addToCart_merges_quantity_witness:
  "cart_ok cart1 \<and>
   (\<exists>d'. addToCart ''c2'' 40 41
            \<lparr>ici_userId = ''alice'', ici_productId = ''p1'', ici_quantity = Value 3\<rparr> cart1 =
          Inr (Some ((cart_row ''c1'' ''alice'' ''p1'' 2)\<lparr>ci_quantity := Some 5, ci_updatedAt := Some 41\<rparr>), d') \<and>
        cart_rows ''alice'' ''p1'' d' =
          [(cart_row ''c1'' ''alice'' ''p1'' 2)\<lparr>ci_quantity := Some 5, ci_updatedAt := Some 41\<rparr>]) \<and>
   addToCart ''c2'' 40 41
       \<lparr>ici_userId = ''alice'', ici_productId = ''p1'', ici_quantity = Value 1\<rparr> full_cart =
     Inl NumericValueOutOfRange \<and>
   (\<exists>n d'. addToCart ''c1'' 40 41
            \<lparr>ici_userId = ''alice'', ici_productId = ''p1'', ici_quantity = Value 3\<rparr> shop =
          Inr (Some n, d') \<and> ci_quantity n = Some 3 \<and> cart_rows ''alice'' ''p1'' d' = [n]) \<and>
   (\<exists>r1 d1 r2 d2.
        addToCart ''c1'' 40 41
            \<lparr>ici_userId = ''alice'', ici_productId = ''p1'', ici_quantity = Value 2\<rparr> shop =
          Inr (Some r1, d1) \<and>
        addToCart ''c2'' 42 43
            \<lparr>ici_userId = ''alice'', ici_productId = ''p1'', ici_quantity = Value 3\<rparr> d1 =
          Inr (Some r2, d2) \<and>
        cart_rows ''alice'' ''p1'' d2 = [r2] \<and> ci_quantity r2 = Some 5)"
proof -
  have pre1: "cart_row ''c1'' ''alice'' ''p1'' 2 \<in> set (cartItems cart1) \<and>
      ci_userId (cart_row ''c1'' ''alice'' ''p1'' 2) = ''alice'' \<and>
      ci_productId (cart_row ''c1'' ''alice'' ''p1'' 2) = ''p1'' \<and>
      ci_quantity (cart_row ''c1'' ''alice'' ''p1'' 2) = Some 2"
    by (simp add: cart1_def cart_row_def)
  have pre2: "cart_rows ''alice'' ''p1'' shop = [] \<and> \<not> has_id ci_id (cartItems shop) ''c1'' \<and>
      has_id u_id (users shop) ''alice'' \<and> has_id p_id (products shop) ''p1''"
    by (simp add: cart_rows_def has_id_def shop_def two_users_def empty_db_def user_row_def
        product_row_def)
  have pre3: "cart_row ''c1'' ''alice'' ''p1'' 2147483647 \<in> set (cartItems full_cart) \<and>
      ci_userId (cart_row ''c1'' ''alice'' ''p1'' 2147483647) = ''alice'' \<and>
      ci_productId (cart_row ''c1'' ''alice'' ''p1'' 2147483647) = ''p1'' \<and>
      ci_quantity (cart_row ''c1'' ''alice'' ''p1'' 2147483647) = Some 2147483647"
    by (simp add: full_cart_def cart_row_def)
  have q: "js_or_1 (Value 3) = 3"
    by (simp add: js_or_1_def)
  have range1: "int4 (2 + js_or_1 (Value 3))"
    by (simp add: js_or_1_def int4_def)
  have range2: "int4_column (column_value 1 (Value 3))"
    by (simp add: int4_column_def column_value_def int4_def)
  have range3: "\<not> int4 (2147483647 + js_or_1 (Value 1))"
    by (simp add: js_or_1_def int4_def)
  have range4: "int4 2 \<and> int4 (2 + js_or_1 (Value 3))"
    by (simp add: js_or_1_def int4_def)
  note T1 = addToCart_merges_quantity [OF cart_ok_cart1,
        of "''alice''" "''p1''" "Value 3" "''c2''" 40 41]
  note T2 = addToCart_merges_quantity [OF cart_ok_shop,
        of "''alice''" "''p1''" "Value 3" "''c1''" 40 41 2 "''c2''" 42 43]
  note T3 = addToCart_merges_quantity [OF cart_ok_full_cart,
        of "''alice''" "''p1''" "Value 1" "''c2''" 40 41]
  note a0 = T1 [THEN conjunct1, rule_format, OF pre1, THEN conjunct1, THEN mp, OF range1]
  have a: "\<exists>d'. addToCart ''c2'' 40 41
            \<lparr>ici_userId = ''alice'', ici_productId = ''p1'', ici_quantity = Value 3\<rparr> cart1 =
          Inr (Some ((cart_row ''c1'' ''alice'' ''p1'' 2)\<lparr>ci_quantity := Some 5, ci_updatedAt := Some 41\<rparr>), d') \<and>
        cart_rows ''alice'' ''p1'' d' =
          [(cart_row ''c1'' ''alice'' ''p1'' 2)\<lparr>ci_quantity := Some 5, ci_updatedAt := Some 41\<rparr>]"
  proof -
    from a0 obtain d' where
      "addToCart ''c2'' 40 41
            \<lparr>ici_userId = ''alice'', ici_productId = ''p1'', ici_quantity = Value 3\<rparr> cart1 =
          Inr (Some ((cart_row ''c1'' ''alice'' ''p1'' 2)\<lparr>ci_quantity := Some (2 + js_or_1 (Value 3)), ci_updatedAt := Some 41\<rparr>), d')"
      "cart_rows ''alice'' ''p1'' d' =
          [(cart_row ''c1'' ''alice'' ''p1'' 2)\<lparr>ci_quantity := Some (2 + js_or_1 (Value 3)), ci_updatedAt := Some 41\<rparr>]"
      by blast
    then show ?thesis
      unfolding q by (intro exI [of _ d']) simp
  qed
  note rejected = T3 [THEN conjunct1, rule_format, OF pre3, THEN conjunct2, THEN mp, OF range3]
  note b0 = T2 [THEN conjunct2, THEN conjunct1, rule_format, OF pre2]
  from b0 [THEN conjunct1, THEN mp, OF range2] obtain n d' where
    n: "addToCart ''c1'' 40 41
            \<lparr>ici_userId = ''alice'', ici_productId = ''p1'', ici_quantity = Value 3\<rparr> shop =
          Inr (Some n, d')" "ci_quantity n = column_value 1 (Value 3)"
       "cart_rows ''alice'' ''p1'' d' = [n]"
    by blast
  have b: "(\<exists>n d'. addToCart ''c1'' 40 41
            \<lparr>ici_userId = ''alice'', ici_productId = ''p1'', ici_quantity = Value 3\<rparr> shop =
          Inr (Some n, d') \<and> ci_quantity n = Some 3 \<and> cart_rows ''alice'' ''p1'' d' = [n])"
    using n by (intro exI [of _ n] exI [of _ d']) (simp add: column_value_def)
  have c: "(\<exists>r1 d1 r2 d2.
        addToCart ''c1'' 40 41
            \<lparr>ici_userId = ''alice'', ici_productId = ''p1'', ici_quantity = Value 2\<rparr> shop =
          Inr (Some r1, d1) \<and>
        addToCart ''c2'' 42 43
            \<lparr>ici_userId = ''alice'', ici_productId = ''p1'', ici_quantity = Value 3\<rparr> d1 =
          Inr (Some r2, d2) \<and>
        cart_rows ''alice'' ''p1'' d2 = [r2] \<and> ci_quantity r2 = Some 5)"
    using b0 [THEN conjunct2, THEN mp, OF range4] unfolding q by simp
  from cart_ok_cart1 a rejected b c show ?thesis by simp
qed

subsection \<open>Trending and recommended products\<close>

lemma desc_le_iff: "desc a \<le> desc b \<longleftrightarrow> desc_le a b"
  by (cases a; cases b) (simp_all add: desc_def desc_le_def)

lemma desc_less_iff: "desc a < desc b \<longleftrightarrow> desc_le a b \<and> a \<noteq> b"
  by (cases a; cases b) (auto simp: desc_def desc_le_def)

lemma trending_before_iff:
  "trending_before p q \<longleftrightarrow>
     (desc (p_likesCount p), desc (p_viewsCount p)) \<le> (desc (p_likesCount q), desc (p_viewsCount q))"
  by (auto simp: trending_before_def desc_le_iff desc_less_iff)

lemma sorted_wrt_sort_key:
  "sorted_wrt (\<lambda>x y. key x \<le> key y) (sort_key key xs)"
  using sorted_sort_key [of key xs] by (simp add: sorted_map)

lemma trending_sorted:
  "sorted_wrt trending_before
     (sort_key (\<lambda>p. (desc (p_likesCount p), desc (p_viewsCount p))) xs)"
  using sorted_wrt_sort_key [of "\<lambda>p. (desc (p_likesCount p), desc (p_viewsCount p))" xs]
  unfolding trending_before_iff .

lemma trending_tie:
  "trending_before p q \<Longrightarrow>
     sort_key (\<lambda>p. (desc (p_likesCount p), desc (p_viewsCount p))) [p, q] = [p, q]"
  unfolding trending_before_iff by simp

lemma getTrendingProducts_take:
  "0 \<le> default_limit limit \<Longrightarrow>
     getTrendingProducts limit d =
       take (nat (default_limit limit))
         (sort_key (\<lambda>p. (desc (p_likesCount p), desc (p_viewsCount p)))
            (filter available (products d)))"
  by (simp add: getTrendingProducts_def limit_rows_def)

text \<open>
  C6 (as amended). For every limit \<open>n \<ge> 0\<close> (\<open>10\<close> when none is given),
  \<open>getTrendingProducts(n)\<close> returns at most \<open>n\<close> products (\<open>n\<close> of them when that many are
  available), each an available product of the table, in an order where likes do not
  increase and, among equal likes, views do not increase (a \<open>NULL\<close> counter standing
  first): the first \<open>n\<close> of the available products so ordered. Nothing orders two products
  with equal likes and views: a table that holds them as \<open>p, q\<close> returns \<open>p, q\<close>, and one
  that holds them as \<open>q, p\<close> returns \<open>q, p\<close>.
\<close>

theorem getTrendingProducts_sorted_by_likes_then_views:
  "0 \<le> default_limit limit \<Longrightarrow>
   int (length (getTrendingProducts limit d)) \<le> default_limit limit \<and>
   length (getTrendingProducts limit d) =
     min (nat (default_limit limit)) (length (filter available (products d))) \<and>
   (\<forall>p \<in> set (getTrendingProducts limit d). available p \<and> p \<in> set (products d)) \<and>
   sorted_wrt trending_before (getTrendingProducts limit d) \<and>
   (\<exists>full. mset full = mset (filter available (products d)) \<and>
           sorted_wrt trending_before full \<and>
           getTrendingProducts limit d = take (nat (default_limit limit)) full) \<and>
   (available p \<and> available q \<and> p_likesCount p = p_likesCount q \<and> p_viewsCount p = p_viewsCount q \<longrightarrow>
      getTrendingProducts (Some 2) (d\<lparr>products := [p, q]\<rparr>) = [p, q] \<and>
      getTrendingProducts (Some 2) (d\<lparr>products := [q, p]\<rparr>) = [q, p]) \<and>
   default_limit None = 10 \<and> default_limit (Some n) = n"
proof (intro conjI ballI impI)
  assume n: "0 \<le> default_limit limit"
  let ?full = "sort_key (\<lambda>p. (desc (p_likesCount p), desc (p_viewsCount p)))
      (filter available (products d))"
  have res: "getTrendingProducts limit d = take (nat (default_limit limit)) ?full"
    by (rule getTrendingProducts_take [OF n])
  show "int (length (getTrendingProducts limit d)) \<le> default_limit limit"
    using n by (simp add: res)
  show "length (getTrendingProducts limit d) =
      min (nat (default_limit limit)) (length (filter available (products d)))"
    by (simp add: res min.commute)
  show "sorted_wrt trending_before (getTrendingProducts limit d)"
    unfolding res by (rule sorted_wrt_take [OF trending_sorted])
  show "\<exists>full. mset full = mset (filter available (products d)) \<and>
           sorted_wrt trending_before full \<and>
           getTrendingProducts limit d = take (nat (default_limit limit)) full"
    using res trending_sorted by (intro exI [of _ ?full]) simp
  fix x assume "x \<in> set (getTrendingProducts limit d)"
  then have "x \<in> set ?full"
    unfolding res by (rule in_set_takeD)
  then show "available x" "x \<in> set (products d)"
    by simp_all
next
  assume tie: "available p \<and> available q \<and> p_likesCount p = p_likesCount q \<and>
      p_viewsCount p = p_viewsCount q"
  have refl: "desc_le a a" for a
    by (cases a) (simp_all add: desc_le_def)
  from tie have "trending_before p q" "trending_before q p"
    by (simp_all add: trending_before_def refl)
  with tie show "getTrendingProducts (Some 2) (d\<lparr>products := [p, q]\<rparr>) = [p, q]"
    "getTrendingProducts (Some 2) (d\<lparr>products := [q, p]\<rparr>) = [q, p]"
    by (simp_all add: getTrendingProducts_def limit_rows_def default_limit_def trending_tie)
qed (simp_all add: default_limit_def)

text \<open>
  With limit \<open>-1\<close> the statement carries no \<open>LIMIT\<close> clause: all three available products
  are returned.
\<close>

theorem getTrendingProducts_negative_limit_counterexample:
  "map p_id (getTrendingProducts (Some (- 1)) trending_shop) = [''p4'', ''p2'', ''p1''] \<and>
   \<not> int (length (getTrendingProducts (Some (- 1)) trending_shop)) \<le> - 1"
  by (simp add: getTrendingProducts_def limit_rows_def default_limit_def trending_shop_def
      two_users_def empty_db_def product_row_def available_def desc_def)

lemma trending_shop_top2:
  "map p_id (getTrendingProducts (Some 2) trending_shop) = [''p4'', ''p2'']"
  by (simp add: getTrendingProducts_def limit_rows_def default_limit_def trending_shop_def
      two_users_def empty_db_def product_row_def available_def desc_def)

theorem getTrendingProducts_sorted_by_likes_then_views_witness:
  "map p_id (getTrendingProducts (Some 2) trending_shop) = [''p4'', ''p2''] \<and>
   length (getTrendingProducts (Some 2) trending_shop) \<le> 2 \<and>
   list_all available (getTrendingProducts (Some 2) trending_shop) \<and>
   sorted_wrt trending_before (getTrendingProducts (Some 2) trending_shop) \<and>
   getTrendingProducts (Some 2)
      (trending_shop\<lparr>products := [product_row ''p1'' ''bob'' ''Shoe'' ''a red shoe'',
                                  product_row ''p2'' ''bob'' ''Boot'' ''a boot'']\<rparr>) =
     [product_row ''p1'' ''bob'' ''Shoe'' ''a red shoe'', product_row ''p2'' ''bob'' ''Boot'' ''a boot''] \<and>
   getTrendingProducts (Some 2)
      (trending_shop\<lparr>products := [product_row ''p2'' ''bob'' ''Boot'' ''a boot'',
                                  product_row ''p1'' ''bob'' ''Shoe'' ''a red shoe'']\<rparr>) =
     [product_row ''p2'' ''bob'' ''Boot'' ''a boot'', product_row ''p1'' ''bob'' ''Shoe'' ''a red shoe'']"
proof -
  have n: "0 \<le> default_limit (Some 2)"
    by (simp add: default_limit_def)
  note T = getTrendingProducts_sorted_by_likes_then_views
    [OF n, of trending_shop "product_row ''p1'' ''bob'' ''Shoe'' ''a red shoe''"
        "product_row ''p2'' ''bob'' ''Boot'' ''a boot''"]
  have tie: "available (product_row ''p1'' ''bob'' ''Shoe'' ''a red shoe'') \<and>
      available (product_row ''p2'' ''bob'' ''Boot'' ''a boot'') \<and>
      p_likesCount (product_row ''p1'' ''bob'' ''Shoe'' ''a red shoe'') =
        p_likesCount (product_row ''p2'' ''bob'' ''Boot'' ''a boot'') \<and>
      p_viewsCount (product_row ''p1'' ''bob'' ''Shoe'' ''a red shoe'') =
        p_viewsCount (product_row ''p2'' ''bob'' ''Boot'' ''a boot'')"
    by (simp add: available_def product_row_def)
  have len: "length (getTrendingProducts (Some 2) trending_shop) \<le> 2"
    using T [THEN conjunct1] by (simp add: default_limit_def)
  have av: "list_all available (getTrendingProducts (Some 2) trending_shop)"
    using T [THEN conjunct2, THEN conjunct2, THEN conjunct1] by (simp add: list_all_iff)
  note srt = T [THEN conjunct2, THEN conjunct2, THEN conjunct2, THEN conjunct1]
  note ties = T [THEN conjunct2, THEN conjunct2, THEN conjunct2, THEN conjunct2, THEN conjunct2,
      THEN conjunct1, rule_format, OF tie]
  from trending_shop_top2 len av srt ties show ?thesis
    by simp
qed

text \<open>
  C4. For a user with no product-like row and no bookmark row,
  \<open>getRecommendedProducts(userId, limit)\<close> returns the list \<open>getTrendingProducts(limit)\<close> of
  the same state, for every limit (and whatever the engine reads as an array).
\<close>

theorem getRecommendedProducts_falls_back_to_trending:
  "filter (\<lambda>l. pl_userId l = userId) (productLikes d) = [] \<Longrightarrow>
   filter (\<lambda>b. pb_userId b = userId) (productBookmarks d) = [] \<Longrightarrow>
     getRecommendedProducts array_in userId limit d = Inr (getTrendingProducts limit d)"
  by (simp add: getRecommendedProducts_def getTrendingProducts_def default_limit_def Let_def)

theorem getRecommendedProducts_falls_back_to_trending_witness:
  "filter (\<lambda>l. pl_userId l = ''alice'') (productLikes trending_shop) = [] \<and>
   filter (\<lambda>b. pb_userId b = ''alice'') (productBookmarks trending_shop) = [] \<and>
   getRecommendedProducts (\<lambda>t. None) ''alice'' (Some 2) trending_shop =
     Inr (getTrendingProducts (Some 2) trending_shop) \<and>
   map p_id (getTrendingProducts (Some 2) trending_shop) = [''p4'', ''p2''] \<and>
   getRecommendedProducts (\<lambda>t. None) ''alice'' None trending_shop =
     Inr (getTrendingProducts None trending_shop) \<and>
   getRecommendedProducts (\<lambda>t. None) ''alice'' (Some (- 1)) trending_shop =
     Inr (getTrendingProducts (Some (- 1)) trending_shop)"
proof -
  have none: "filter (\<lambda>l. pl_userId l = ''alice'') (productLikes trending_shop) = []"
    "filter (\<lambda>b. pb_userId b = ''alice'') (productBookmarks trending_shop) = []"
    by (simp_all add: trending_shop_def two_users_def empty_db_def)
  note eq = getRecommendedProducts_falls_back_to_trending [OF none]
  from none eq [of "\<lambda>t. None" "Some 2"] eq [of "\<lambda>t. None" None]
    eq [of "\<lambda>t. None" "Some (- 1)"] trending_shop_top2
  show ?thesis
    by simp
qed

subsection \<open>Trending hashtags\<close>


lemma count_hashtag_update:
  "count_hashtag t m = AList.update t (held m t + 1) m"
  by (simp add: count_hashtag_def held_def Let_def split: option.split)

lemma held_count_hashtag:
  "held (count_hashtag t m) h = held m h + (if h = t then 1 else 0)"
  by (simp add: count_hashtag_update held_def update_conv')

lemma keys_count_hashtag:
  "fst ` set (count_hashtag t m) = insert t (fst ` set m)"
  by (simp add: count_hashtag_update dom_update)

lemma distinct_count_hashtag:
  "distinct (map fst m) \<Longrightarrow> distinct (map fst (count_hashtag t m))"
  by (simp add: count_hashtag_update distinct_update)

lemma held_fold:
  "held (fold count_hashtag ts m) h = held m h + int (count_list ts h)"
  by (induction ts arbitrary: m) (simp_all add: held_count_hashtag)

lemma keys_fold:
  "fst ` set (fold count_hashtag ts m) = set ts \<union> fst ` set m"
  by (induction ts arbitrary: m) (simp_all add: keys_count_hashtag)

lemma distinct_fold:
  "distinct (map fst m) \<Longrightarrow> distinct (map fst (fold count_hashtag ts m))"
  by (induction ts arbitrary: m) (simp_all add: distinct_count_hashtag)

lemma fold_products_concat:
  "fold (\<lambda>hashtags m. case hashtags of None \<Rightarrow> m | Some tags \<Rightarrow> fold count_hashtag tags m) hss m =
   fold count_hashtag (concat (map (\<lambda>hs. case hs of None \<Rightarrow> [] | Some tags \<Rightarrow> tags) hss)) m"
  by (induction hss arbitrary: m) (simp_all split: option.split)

lemma hashtagCount_fold:
  "hashtagCount d = fold count_hashtag (available_hashtags d) []"
  by (simp add: hashtagCount_def available_hashtags_def Let_def fold_products_concat comp_def)

lemma hashtagCount_distinct: "distinct (map fst (hashtagCount d))"
  by (simp add: hashtagCount_fold distinct_fold)

lemma hashtagCount_keys: "set (map fst (hashtagCount d)) = set (available_hashtags d)"
  by (simp add: hashtagCount_fold keys_fold)

lemma hashtagCount_entry:
  "(h, c) \<in> set (hashtagCount d) \<Longrightarrow> c = int (count_list (available_hashtags d) h)"
proof -
  assume "(h, c) \<in> set (hashtagCount d)"
  then have "map_of (hashtagCount d) h = Some c"
    using hashtagCount_distinct by simp
  then have "held (hashtagCount d) h = c"
    by (simp add: held_def)
  moreover have "held (hashtagCount d) h = held [] h + int (count_list (available_hashtags d) h)"
    unfolding hashtagCount_fold by (rule held_fold)
  moreover have "held [] h = 0"
    by (simp add: held_def)
  ultimately show ?thesis
    by simp
qed

lemma hashtagCount_length: "length (hashtagCount d) = card (set (available_hashtags d))"
proof -
  have "length (hashtagCount d) = length (map fst (hashtagCount d))"
    by simp
  also have "\<dots> = card (set (map fst (hashtagCount d)))"
    using hashtagCount_distinct by (simp only: distinct_card)
  finally show ?thesis
    by (simp only: hashtagCount_keys)
qed


lemma sorted_entries_props:
  "distinct (map fst (sorted_entries d)) \<and>
   set (map fst (sorted_entries d)) = set (available_hashtags d) \<and>
   (\<forall>(h, c) \<in> set (sorted_entries d). c = int (count_list (available_hashtags d) h)) \<and>
   sorted_wrt (\<lambda>a b. snd b \<le> snd a) (sorted_entries d) \<and>
   length (sorted_entries d) = card (set (available_hashtags d))"
proof (intro conjI)
  have "mset (map fst (sorted_entries d)) = mset (map fst (hashtagCount d))"
    by (simp add: sorted_entries_def)
  from mset_eq_imp_distinct_iff [OF this] show "distinct (map fst (sorted_entries d))"
    by (simp add: hashtagCount_distinct)
  show "set (map fst (sorted_entries d)) = set (available_hashtags d)"
    using hashtagCount_keys by (simp add: sorted_entries_def)
  show "\<forall>(h, c) \<in> set (sorted_entries d). c = int (count_list (available_hashtags d) h)"
    by (auto simp: sorted_entries_def dest: hashtagCount_entry)
  have "sorted (map (\<lambda>(hashtag, count). - count) (sorted_entries d))"
    unfolding sorted_entries_def by (rule sorted_sort_key)
  then show "sorted_wrt (\<lambda>a b. snd b \<le> snd a) (sorted_entries d)"
    by (simp add: sorted_map case_prod_unfold)
  show "length (sorted_entries d) = card (set (available_hashtags d))"
    by (simp add: sorted_entries_def hashtagCount_length)
qed



text \<open>
  C7 (as amended). For every limit \<open>n \<ge> 0\<close> (\<open>10\<close> when none is given),
  \<open>getTrendingHashtags(n)\<close> is the first \<open>n\<close> entries of a list that holds one entry for each
  distinct hashtag in the hashtag lists of the available products, with the number of
  its occurrences there as count, larger counts first. So the result has distinct
  hashtags, each with its occurrence count, counts not increasing, and its length is the
  minimum of \<open>n\<close> and the number of distinct hashtags.
\<close>

theorem getTrendingHashtags_counts_sorted_truncated:
  "0 \<le> n \<Longrightarrow>
     getTrendingHashtags (Some n) d = take (nat n) (sorted_entries d) \<and>
     distinct (map fst (sorted_entries d)) \<and>
     set (map fst (sorted_entries d)) = set (available_hashtags d) \<and>
     (\<forall>(h, c) \<in> set (sorted_entries d). c = int (count_list (available_hashtags d) h)) \<and>
     sorted_wrt (\<lambda>a b. snd b \<le> snd a) (sorted_entries d) \<and>
     distinct (map fst (getTrendingHashtags (Some n) d)) \<and>
     (\<forall>(h, c) \<in> set (getTrendingHashtags (Some n) d).
         h \<in> set (available_hashtags d) \<and> c = int (count_list (available_hashtags d) h)) \<and>
     sorted_wrt (\<lambda>a b. snd b \<le> snd a) (getTrendingHashtags (Some n) d) \<and>
     length (getTrendingHashtags (Some n) d) = min (nat n) (card (set (available_hashtags d))) \<and>
     getTrendingHashtags None d = take 10 (sorted_entries d)"
proof -
  assume n: "0 \<le> n"
  note P = sorted_entries_props [of d]
  have res: "getTrendingHashtags (Some n) d = take (nat n) (sorted_entries d)"
    using n by (simp add: getTrendingHashtags_def js_slice0_def sorted_entries_def)
  have dflt: "getTrendingHashtags None d = take 10 (sorted_entries d)"
    by (simp add: getTrendingHashtags_def js_slice0_def sorted_entries_def)
  have d1: "distinct (map fst (getTrendingHashtags (Some n) d))"
    unfolding res take_map [symmetric] using P by (intro distinct_take) simp
  have sub: "set (getTrendingHashtags (Some n) d) \<subseteq> set (sorted_entries d)"
    unfolding res by (rule set_take_subset)
  have keys: "\<And>h c. (h, c) \<in> set (sorted_entries d) \<Longrightarrow> h \<in> set (available_hashtags d)"
    using P by (metis fst_conv image_eqI set_map)
  have d2: "\<forall>(h, c) \<in> set (getTrendingHashtags (Some n) d).
         h \<in> set (available_hashtags d) \<and> c = int (count_list (available_hashtags d) h)"
    using sub P keys by fastforce
  have d3: "sorted_wrt (\<lambda>a b. snd b \<le> snd a) (getTrendingHashtags (Some n) d)"
    unfolding res using P by (intro sorted_wrt_take) simp
  have d4: "length (getTrendingHashtags (Some n) d) = min (nat n) (card (set (available_hashtags d)))"
    unfolding res using P by (simp add: min.commute)
  from res P d1 d2 d3 d4 dflt show ?thesis
    by simp
qed

text \<open>
  With limit \<open>-1\<close>, \<open>slice(0, -1)\<close> drops the last entry only: three distinct hashtags give
  a result of length \<open>2\<close>.
\<close>

theorem getTrendingHashtags_negative_limit_counterexample:
  "getTrendingHashtags (Some (- 1)) tags_shop = [(''c'', 3), (''a'', 2)] \<and>
   remdups (available_hashtags tags_shop) = [''a'', ''b'', ''c''] \<and>
   int (length (getTrendingHashtags (Some (- 1)) tags_shop)) \<noteq>
     min (- 1) (int (length (remdups (available_hashtags tags_shop))))"
  by (simp add: getTrendingHashtags_def js_slice0_def hashtagCount_def count_hashtag_def
      available_hashtags_def tags_shop_def two_users_def empty_db_def product_row_def
      available_def Let_def)

lemma tags_shop_top5:
  "getTrendingHashtags (Some 5) tags_shop = [(''c'', 3), (''a'', 2), (''b'', 2)]"
  by (simp add: getTrendingHashtags_def js_slice0_def hashtagCount_def count_hashtag_def
      tags_shop_def two_users_def empty_db_def product_row_def available_def Let_def)

lemma fold_count_hashtag_replicate:
  "fold count_hashtag (replicate n h) m =
     (if n = 0 then m else AList.update h (held m h + int n) m)"
proof (induction n arbitrary: m)
  case 0
  then show ?case by simp
next
  case (Suc n)
  have "fold count_hashtag (replicate (Suc n) h) m = fold count_hashtag (replicate n h) (count_hashtag h m)"
    by simp
  also have "\<dots> = (if n = 0 then count_hashtag h m
      else AList.update h (held (count_hashtag h m) h + int n) (count_hashtag h m))"
    by (rule Suc.IH)
  also have "\<dots> = AList.update h (held m h + int (Suc n)) m"
    by (simp add: held_count_hashtag) (simp add: count_hashtag_update add.commute add.left_commute)
  finally show ?case by simp
qed

lemma frequency_example_hashtags:
  "available_hashtags frequency_example =
     replicate 10 ''a'' @ replicate 7 ''b'' @ replicate 7 ''c'' @ replicate 3 ''d''"
  by (simp add: available_hashtags_def frequency_example_def product_row_def available_def)

lemma frequency_example_counts:
  "hashtagCount frequency_example = [(''a'', 10), (''b'', 7), (''c'', 7), (''d'', 3)]"
  by (simp add: hashtagCount_fold frequency_example_hashtags fold_count_hashtag_replicate held_def
      del: fold_replicate)

lemma frequency_example_top5:
  "getTrendingHashtags (Some 5) frequency_example = [(''a'', 10), (''b'', 7), (''c'', 7), (''d'', 3)]"
  by (simp add: getTrendingHashtags_def js_slice0_def frequency_example_counts)

theorem getTrendingHashtags_counts_sorted_truncated_witness:
  "getTrendingHashtags (Some 5) frequency_example = [(''a'', 10), (''b'', 7), (''c'', 7), (''d'', 3)] \<and>
   length (getTrendingHashtags (Some 5) frequency_example) =
     min 5 (card (set (available_hashtags frequency_example))) \<and>
   length (getTrendingHashtags (Some 5) frequency_example) = 4 \<and>
   getTrendingHashtags (Some 5) tags_shop = [(''c'', 3), (''a'', 2), (''b'', 2)] \<and>
   length (getTrendingHashtags (Some 5) tags_shop) =
     min 5 (card (set (available_hashtags tags_shop))) \<and>
   sorted_wrt (\<lambda>a b. snd b \<le> snd a) (getTrendingHashtags (Some 5) tags_shop) \<and>
   distinct (map fst (getTrendingHashtags (Some 5) tags_shop)) \<and>
   count_list (available_hashtags tags_shop) ''c'' = 3"
proof -
  have n: "(0 :: int) \<le> 5" by simp
  note T = getTrendingHashtags_counts_sorted_truncated [OF n, of tags_shop]
  note E = getTrendingHashtags_counts_sorted_truncated [OF n, of frequency_example]
  from E have "length (getTrendingHashtags (Some 5) frequency_example) =
     min (nat 5) (card (set (available_hashtags frequency_example)))"
    by blast
  then have len_e: "length (getTrendingHashtags (Some 5) frequency_example) =
     min 5 (card (set (available_hashtags frequency_example)))"
    by simp
  from T have "length (getTrendingHashtags (Some 5) tags_shop) =
     min (nat 5) (card (set (available_hashtags tags_shop)))"
    by blast
  then have len: "length (getTrendingHashtags (Some 5) tags_shop) =
     min 5 (card (set (available_hashtags tags_shop)))"
    by simp
  have srt: "sorted_wrt (\<lambda>a b. snd b \<le> snd a) (getTrendingHashtags (Some 5) tags_shop)"
    using T by blast
  have dst: "distinct (map fst (getTrendingHashtags (Some 5) tags_shop))"
    using T by blast
  have "(''c'', 3) \<in> set (getTrendingHashtags (Some 5) tags_shop)"
    by (simp add: tags_shop_top5)
  with T have "(3 :: int) = int (count_list (available_hashtags tags_shop) ''c'')"
    by fastforce
  with tags_shop_top5 frequency_example_top5 len len_e srt dst show ?thesis
    by simp
qed


subsection \<open>Search\<close>

text \<open>
  A list of two or more hashtags reaches the engine as a row, and the search is rejected
  whatever the query and the catalog.
\<close>

lemma searchProducts_two_hashtags_rejected:
  "searchProducts array_in query (Some (h1 # h2 # hs)) d = Inl UndefinedFunction"
  by (simp add: searchProducts_def overlap_operand_def Let_def)

text \<open>
  C5. The query is pasted into the pattern as it is, so its \<open>%\<close>, \<open>_\<close> and backslash act
  as pattern characters. For the query \<open>_\<close> and no hashtag list the search returns the
  product titled \<open>Shoe\<close>, described as \<open>a red shoe\<close>: neither text contains \<open>_\<close>, and
  the claim's condition excludes the product.
\<close>

theorem searchProducts_underscore_query:
  "searchProducts array_in ''_'' None shop = Inr [product_row ''p1'' ''bob'' ''Shoe'' ''a red shoe''] \<and>
   p_title (product_row ''p1'' ''bob'' ''Shoe'' ''a red shoe'') = ''Shoe'' \<and>
   p_description (product_row ''p1'' ''bob'' ''Shoe'' ''a red shoe'') = ''a red shoe'' \<and>
   \<not> contains_ci ''Shoe'' ''_'' \<and> \<not> contains_ci ''a red shoe'' ''_'' \<and>
   \<not> search_spec ''_'' None (product_row ''p1'' ''bob'' ''Shoe'' ''a red shoe'')"
proof -
  have r: "searchProducts array_in ''_'' None shop =
      Inr [product_row ''p1'' ''bob'' ''Shoe'' ''a red shoe'']"
    by (simp add: searchProducts_def ilike_def to_lower_def shop_def two_users_def empty_db_def
        product_row_def available_def Let_def)
  have c: "\<not> contains_ci ''Shoe'' ''_''" "\<not> contains_ci ''a red shoe'' ''_''"
    by code_simp+
  have f: "p_title (product_row ''p1'' ''bob'' ''Shoe'' ''a red shoe'') = ''Shoe''"
    "p_description (product_row ''p1'' ''bob'' ''Shoe'' ''a red shoe'') = ''a red shoe''"
    by (simp_all add: product_row_def)
  from r c f show ?thesis
    by (simp add: search_spec_def)
qed

end
